theory Spec2Isabelle
  imports Complex_Main
begin

section \<open>Data model\<close>

text \<open>
  JavaScript numbers that carry times (seconds) are modelled as real numbers: the
  properties below concern the control flow and the ordering of the values, not the
  rounding of IEEE doubles, and \<open>NaN\<close> has no counterpart here. Strings are
  \<open>string\<close>; a thrown \<open>Error\<close> is a value \<open>Error msg\<close>, and a function that can throw
  returns \<open>error + 'a\<close> with \<open>Inl\<close> for the rejection.
\<close>

datatype error = Error string

text \<open>The \<open>status\<close> column of a Video row (\<open>VideoStatus\<close> of the shared types).\<close>

datatype video_status = UPLOADING | PROCESSING | TRANSCRIBING | EMBEDDING | READY | FAILED

text \<open>
  A Clip row of the relational store. The store generates the identifier; the model
  numbers the rows in creation order. \<open>transcript\<close> and \<open>embedding\<close> are nullable columns.
\<close>

record clip_row =
  clipId :: nat
  clipVideoId :: string
  startTime :: real
  endTime :: real
  transcript :: "string option"
  embedding :: "real list option"

record video_row =
  videoId :: string
  status :: video_status

record db =
  videos :: "video_row list"
  clips :: "clip_row list"

text \<open>The \<open>{id, startTime, endTime}\<close> objects that \<open>createClipsFromScenes\<close> returns.\<close>

record clip_ref =
  refId :: nat
  refStart :: real
  refEnd :: real

text \<open>A \<open>TranscriptSegment\<close>: \<open>{start, end, text}\<close>.\<close>

record segment =
  segStart :: real
  segEnd :: real
  segText :: string

section \<open>Clip materialization: \<open>ProcessingService.createClipsFromScenes\<close>\<close>

text \<open>\<open>prisma.clip.create\<close>: a new row with null transcript and embedding.\<close>

definition clipCreate :: "string \<Rightarrow> real \<Rightarrow> real \<Rightarrow> db \<Rightarrow> clip_row \<times> db" where
  "clipCreate vid s e d =
     (let row = \<lparr>clipId = length (clips d), clipVideoId = vid, startTime = s, endTime = e,
                 transcript = None, embedding = None\<rparr>
      in (row, d\<lparr>clips := clips d @ [row]\<rparr>))"

text \<open>
  \<open>scenes[i + 1] || duration\<close>, where \<open>rest\<close> is \<open>scenes\<close> from index \<open>i + 1\<close> on: the
  duration when there is no next boundary (\<open>undefined\<close>) or when the next boundary is the
  falsy value \<open>0\<close>.
\<close>

definition nextSceneOf :: "real \<Rightarrow> real list \<Rightarrow> real" where
  "nextSceneOf duration rest =
     (case rest of [] \<Rightarrow> duration | t # _ \<Rightarrow> if t = 0 then duration else t)"

text \<open>
  The \<open>for\<close> loop of \<open>createClipsFromScenes\<close>. The list argument is \<open>scenes\<close> from index
  \<open>i\<close> on, so \<open>i === scenes.length - 1\<close> is "the rest is empty".
\<close>

fun clipLoop :: "string \<Rightarrow> real \<Rightarrow> real \<Rightarrow> real \<Rightarrow> real list \<Rightarrow> db \<Rightarrow> clip_ref list \<times> db" where
  "clipLoop vid duration minClipDuration currentStart [] d = ([], d)"
| "clipLoop vid duration minClipDuration currentStart (s # rest) d =
     (let nextScene = nextSceneOf duration rest
      in if nextScene - currentStart \<ge> minClipDuration \<or> rest = [] then
           (let (row, d') = clipCreate vid currentStart nextScene d;
                (cs, d'') = clipLoop vid duration minClipDuration nextScene rest d'
            in (\<lparr>refId = clipId row, refStart = currentStart, refEnd = nextScene\<rparr> # cs, d''))
         else clipLoop vid duration minClipDuration currentStart rest d)"

text \<open>
  \<open>createClipsFromScenes(videoId, scenes, duration, minClipDuration = 3)\<close>.
  \<open>currentStart = scenes[0]\<close> is \<open>undefined\<close> for an empty list, where the loop body
  never reads it.
\<close>

definition createClipsFromScenes ::
  "string \<Rightarrow> real list \<Rightarrow> real \<Rightarrow> real \<Rightarrow> db \<Rightarrow> clip_ref list \<times> db" where
  "createClipsFromScenes vid scenes duration minClipDuration d =
     (let (cs, d') = (case scenes of [] \<Rightarrow> ([], d)
                      | s0 # _ \<Rightarrow> clipLoop vid duration minClipDuration s0 scenes d)
      in if length cs = 0 then
           (let (row, d'') = clipCreate vid 0 duration d'
            in ([\<lparr>refId = clipId row, refStart = 0, refEnd = duration\<rparr>], d''))
         else (cs, d'))"

definition defaultMinClipDuration :: real where
  "defaultMinClipDuration = 3"

section \<open>Completion detection: \<open>checkVideoCompletion\<close>\<close>

text \<open>
  The \<open>where\<close> clause of the \<open>prisma.clip.count\<close> call:
  \<open>{videoId, embedding: null, OR: [{transcript: {not: ""}}, {transcript: null}]}\<close>.
  The filter \<open>{not: ""}\<close> compares with SQL \<open><>\<close>, which no null value satisfies, hence
  the second disjunct of the source.
\<close>

definition pendingClip :: "string \<Rightarrow> clip_row \<Rightarrow> bool" where
  "pendingClip vid c =
     (clipVideoId c = vid \<and> embedding c = None \<and>
      ((case transcript c of None \<Rightarrow> False | Some t \<Rightarrow> t \<noteq> []) \<or> transcript c = None))"

definition countPendingClips :: "string \<Rightarrow> db \<Rightarrow> nat" where
  "countPendingClips vid d = length (filter (pendingClip vid) (clips d))"

text \<open>
  \<open>prisma.video.updateMany({where: {id, status: guard}, data: {status: new}})\<close>: the
  number of rows updated, and the store after the update.
\<close>

definition videoUpdateManyWhereStatus ::
  "string \<Rightarrow> video_status \<Rightarrow> video_status \<Rightarrow> db \<Rightarrow> nat \<times> db" where
  "videoUpdateManyWhereStatus vid guard new d =
     (length (filter (\<lambda>v. videoId v = vid \<and> status v = guard) (videos d)),
      d\<lparr>videos := map (\<lambda>v. if videoId v = vid \<and> status v = guard then v\<lparr>status := new\<rparr> else v)
                        (videos d)\<rparr>)"

text \<open>\<open>prisma.video.updateMany({where: {id}, data: {status: new}})\<close>.\<close>

definition videoUpdateMany :: "string \<Rightarrow> video_status \<Rightarrow> db \<Rightarrow> db" where
  "videoUpdateMany vid new d =
     d\<lparr>videos := map (\<lambda>v. if videoId v = vid then v\<lparr>status := new\<rparr> else v) (videos d)\<rparr>"

text \<open>
  What one invocation of \<open>checkVideoCompletion\<close> reports, after its three log lines:
  "still has n pending clips", "Video ready", and "status was not EMBEDDING".
\<close>

datatype completion_report = StillPending nat | VideoReady | NotEmbedding

text \<open>
  \<open>checkVideoCompletion(videoId)\<close>. The store's operations are taken to succeed, so the
  \<open>catch\<close> that logs a failed query has no branch here.
\<close>

definition checkVideoCompletion :: "string \<Rightarrow> db \<Rightarrow> completion_report \<times> db" where
  "checkVideoCompletion vid d =
     (let pendingClips = countPendingClips vid d
      in if pendingClips > 0 then (StillPending pendingClips, d)
         else (let (updatedCount, d') = videoUpdateManyWhereStatus vid EMBEDDING READY d
               in if updatedCount > 0 then (VideoReady, d') else (NotEmbedding, d')))"

section \<open>Transcript-to-clip mapping of \<open>videoWorker\<close>\<close>

text \<open>
  The callback of the \<open>filter\<close> over \<open>transcription.segments\<close>: a positive overlap, or
  the segment lying inside the clip's closed interval.
\<close>

definition overlapsClip :: "clip_ref \<Rightarrow> segment \<Rightarrow> bool" where
  "overlapsClip clip s =
     (let overlapStart = max (segStart s) (refStart clip);
          overlapEnd = min (segEnd s) (refEnd clip)
      in overlapEnd > overlapStart \<or> (segStart s \<ge> refStart clip \<and> segEnd s \<le> refEnd clip))"

text \<open>
  The assignment rule in the specification's words, for comparison with the callback: a
  positive overlap, or a zero-length marker exactly at the clip boundary (its start or
  its end).
\<close>

definition spec_segmentBelongs :: "clip_ref \<Rightarrow> segment \<Rightarrow> bool" where
  "spec_segmentBelongs clip s =
     (max (segStart s) (refStart clip) < min (segEnd s) (refEnd clip) \<or>
      (segStart s = segEnd s \<and> (segStart s = refStart clip \<or> segStart s = refEnd clip)))"

text \<open>
  \<open>Array.prototype.join\<close> and \<open>String.prototype.trim\<close>. A \<open>char\<close> stands for a code
  unit below 256; the white space and line terminators of ECMAScript in that range are
  TAB, LF, VT, FF, CR, SPACE and NBSP.
\<close>

fun join :: "string \<Rightarrow> string list \<Rightarrow> string" where
  "join sep [] = []"
| "join sep [x] = x"
| "join sep (x # y # ys) = x @ sep @ join sep (y # ys)"

definition isWhiteSpace :: "char \<Rightarrow> bool" where
  "isWhiteSpace c = (c \<in> set [CHR 0x09, CHR 0x0A, CHR 0x0B, CHR 0x0C, CHR 0x0D, CHR '' '', CHR 0xA0])"

definition trim :: "string \<Rightarrow> string" where
  "trim s = rev (dropWhile isWhiteSpace (rev (dropWhile isWhiteSpace s)))"

definition overlappingSegments :: "clip_ref \<Rightarrow> segment list \<Rightarrow> segment list" where
  "overlappingSegments clip segments = filter (overlapsClip clip) segments"

definition clipTranscript :: "clip_ref \<Rightarrow> segment list \<Rightarrow> string" where
  "clipTranscript clip segments =
     trim (join '' '' (map segText (overlappingSegments clip segments)))"

text \<open>\<open>prisma.clip.updateMany({where: {id}, data: {transcript}})\<close> and the same for the embedding.\<close>

definition clipUpdateTranscript :: "nat \<Rightarrow> string \<Rightarrow> db \<Rightarrow> db" where
  "clipUpdateTranscript cid t d =
     d\<lparr>clips := map (\<lambda>c. if clipId c = cid then c\<lparr>transcript := Some t\<rparr> else c) (clips d)\<rparr>"

definition clipUpdateEmbedding :: "nat \<Rightarrow> real list \<Rightarrow> db \<Rightarrow> db" where
  "clipUpdateEmbedding cid e d =
     d\<lparr>clips := map (\<lambda>c. if clipId c = cid then c\<lparr>embedding := Some e\<rparr> else c) (clips d)\<rparr>"

text \<open>An entry of the \<open>clipTranscripts\<close> array.\<close>

record clip_transcript =
  ctClipId :: nat
  ctTranscript :: string
  hasTranscript :: bool

text \<open>The loop \<open>for (const clip of clips)\<close>: compute, persist and collect each transcript.\<close>

fun mapTranscripts :: "clip_ref list \<Rightarrow> segment list \<Rightarrow> db \<Rightarrow> clip_transcript list \<times> db" where
  "mapTranscripts [] segments d = ([], d)"
| "mapTranscripts (clip # rest) segments d =
     (let t = clipTranscript clip segments;
          d' = clipUpdateTranscript (refId clip) t d;
          (cts, d'') = mapTranscripts rest segments d'
      in (\<lparr>ctClipId = refId clip, ctTranscript = t, hasTranscript = (length t > 0)\<rparr> # cts, d''))"

section \<open>Embedding stage and the per-video flow of \<open>videoWorker\<close>\<close>

text \<open>The data of an \<open>embed-clip\<close> job on the embedding queue.\<close>

record embed_job =
  jobClipId :: nat
  jobTranscript :: string

text \<open>
  What the worker acts on: the relational store, the embedding queue, and two traces that
  make its calls observable: the argument of every \<open>generateEmbeddingsBatch\<close> call and the
  report of every \<open>checkVideoCompletion\<close> invocation, in order.
\<close>

record world =
  store :: db
  embeddingQueue :: "embed_job list"
  batchCalls :: "string list list"
  completionLog :: "completion_report list"

text \<open>
  The collaborators of one job, as their outcomes: whether the video file is accessible,
  the duration that \<open>getVideoMetadata\<close> reports (thumbnail generation fails or succeeds
  with it), the boundaries that \<open>detectScenes\<close> returns for a video longer than 30
  seconds, the segments that \<open>transcribeFullVideo\<close> returns, and
  \<open>generateEmbeddingsBatch\<close> raced against its 30 second timeout.
\<close>

record job_env =
  fileAccessible :: bool
  metadataDuration :: "error + real"
  detectScenes :: "error + real list"
  transcribeFullVideo :: "error + segment list"
  generateEmbeddingsBatch :: "string list \<Rightarrow> error + real list list"

definition runCheckVideoCompletion :: "string \<Rightarrow> world \<Rightarrow> world" where
  "runCheckVideoCompletion vid w =
     (let (report, d') = checkVideoCompletion vid (store w)
      in w\<lparr>store := d', completionLog := completionLog w @ [report]\<rparr>)"

text \<open>\<open>embeddingQueue.add('embed-clip', {clipId, transcript})\<close> for each clip in turn.\<close>

definition enqueueEmbeddings :: "clip_transcript list \<Rightarrow> world \<Rightarrow> world" where
  "enqueueEmbeddings cts w =
     w\<lparr>embeddingQueue := embeddingQueue w @
          map (\<lambda>c. \<lparr>jobClipId = ctClipId c, jobTranscript = ctTranscript c\<rparr>) cts\<rparr>"

text \<open>
  The \<open>Promise.all\<close> over \<open>clipsWithTranscript\<close> that stores \<open>embeddings[index]\<close>: an
  empty vector is logged as invalid and skipped.
\<close>

definition saveEmbeddings :: "clip_transcript list \<Rightarrow> real list list \<Rightarrow> db \<Rightarrow> db" where
  "saveEmbeddings cts embeddings d =
     foldl (\<lambda>d' (c, e). if e = [] then d' else clipUpdateEmbedding (ctClipId c) e d')
       d (zip cts embeddings)"

definition SHORT_VIDEO_CLIP_THRESHOLD :: nat where
  "SHORT_VIDEO_CLIP_THRESHOLD = 10"

text \<open>
  The embedding stage (from \<open>const clipsWithTranscript\<close> to the end of the \<open>if/else\<close>).
  The result says whether the worker returned from inside the stage (the \<open>return\<close> after
  the check for an empty \<open>transcripts\<close> array). A rejected or timed-out batch call and a
  count mismatch both land in the \<open>catch\<close>, which enqueues every clip.
\<close>

definition embeddingStage ::
  "job_env \<Rightarrow> string \<Rightarrow> clip_transcript list \<Rightarrow> world \<Rightarrow> bool \<times> world" where
  "embeddingStage env vid clipTranscripts w =
     (let clipsWithTranscript = filter hasTranscript clipTranscripts;
          shouldBatch = (length clipsWithTranscript \<le> SHORT_VIDEO_CLIP_THRESHOLD)
      in if shouldBatch \<and> length clipsWithTranscript > 0 then
           (let transcripts = map ctTranscript clipsWithTranscript
            in if length transcripts = 0 then (True, runCheckVideoCompletion vid w)
               else
                 (let w1 = w\<lparr>batchCalls := batchCalls w @ [transcripts]\<rparr>
                  in case generateEmbeddingsBatch env transcripts of
                       Inl e \<Rightarrow> (False, enqueueEmbeddings clipsWithTranscript w1)
                     | Inr embeddings \<Rightarrow>
                         if length embeddings \<noteq> length clipsWithTranscript
                         then (False, enqueueEmbeddings clipsWithTranscript w1)
                         else (False, runCheckVideoCompletion vid
                                 (w1\<lparr>store := saveEmbeddings clipsWithTranscript embeddings
                                                (store w1)\<rparr>))))
         else (False, enqueueEmbeddings clipsWithTranscript w))"

definition SHORT_VIDEO_THRESHOLD :: real where
  "SHORT_VIDEO_THRESHOLD = 30"

definition setStatus :: "string \<Rightarrow> video_status \<Rightarrow> world \<Rightarrow> world" where
  "setStatus vid st w = w\<lparr>store := videoUpdateMany vid st (store w)\<rparr>"

text \<open>
  The part of the \<open>try\<close> block that follows scene detection: create the clips, set
  \<open>TRANSCRIBING\<close>, transcribe the whole video, set \<open>EMBEDDING\<close>, map the segments to the
  clips, run the embedding stage. \<open>Inl\<close> is an exception, with the state reached so far.
\<close>

definition videoWorkerFromScenes ::
  "job_env \<Rightarrow> string \<Rightarrow> real \<Rightarrow> real list \<Rightarrow> world \<Rightarrow> (error + unit) \<times> world" where
  "videoWorkerFromScenes env vid duration scenes w1 =
     (let (clips, d2) = createClipsFromScenes vid scenes duration
                          defaultMinClipDuration (store w1);
          w2 = setStatus vid TRANSCRIBING (w1\<lparr>store := d2\<rparr>)
      in case transcribeFullVideo env of
           Inl e \<Rightarrow> (Inl e, w2)
         | Inr segments \<Rightarrow>
             (let w3 = setStatus vid EMBEDDING w2;
                  (clipTranscripts, d4) = mapTranscripts clips segments (store w3);
                  (returned, w5) = embeddingStage env vid clipTranscripts (w3\<lparr>store := d4\<rparr>)
              in (Inr (), w5)))"

text \<open>
  The body of the \<open>try\<close> block of \<open>videoWorker\<close>: set \<open>PROCESSING\<close>, read the metadata,
  fetch the video row again, and take \<open>[0, duration]\<close> as the boundaries of a video of at
  most 30 seconds, the detected ones otherwise.
\<close>

definition videoWorkerTry :: "job_env \<Rightarrow> string \<Rightarrow> world \<Rightarrow> (error + unit) \<times> world" where
  "videoWorkerTry env vid w0 =
     (let w1 = setStatus vid PROCESSING w0
      in case metadataDuration env of
           Inl e \<Rightarrow> (Inl e, w1)
         | Inr duration \<Rightarrow>
             if \<not> (\<exists>v \<in> set (videos (store w1)). videoId v = vid) then (Inr (), w1)
             else if duration \<le> SHORT_VIDEO_THRESHOLD
             then videoWorkerFromScenes env vid duration [0, duration] w1
             else (case detectScenes env of
                     Inl e \<Rightarrow> (Inl e, w1)
                   | Inr scenes \<Rightarrow> videoWorkerFromScenes env vid duration scenes w1))"

text \<open>
  \<open>videoWorker\<close>, the processor of a \<open>video-processing\<close> job: a video that is not in the
  store is skipped; an inaccessible file sets \<open>FAILED\<close> and throws; an exception of the
  \<open>try\<close> block sets \<open>FAILED\<close> and is thrown again.
\<close>

definition videoWorker :: "job_env \<Rightarrow> string \<Rightarrow> world \<Rightarrow> (error + unit) \<times> world" where
  "videoWorker env vid w =
     (if \<not> (\<exists>v \<in> set (videos (store w)). videoId v = vid) then (Inr (), w)
      else if \<not> fileAccessible env
      then (Inl (Error ''Video file not found''), setStatus vid FAILED w)
      else (case videoWorkerTry env vid w of
              (Inl e, w') \<Rightarrow> (Inl e, setStatus vid FAILED w')
            | (Inr u, w') \<Rightarrow> (Inr u, w')))"

section \<open>Embedding providers\<close>

text \<open>An \<open>EmbeddingResult\<close>; \<open>resText\<close> is \<open>None\<close> where the source reads \<open>texts[index]\<close> out of range.\<close>

record embedding_result =
  resEmbedding :: "real list"
  resText :: "string option"
  resModel :: string

subsection \<open>\<open>cosineSimilarity\<close>, once per provider class\<close>

text \<open>
  The \<open>for\<close> loop over \<open>i < a.length\<close> with its three accumulators. It runs only after the
  length check, so both lists are consumed together.
\<close>

fun cosineLoop :: "real list \<Rightarrow> real list \<Rightarrow> real \<times> real \<times> real \<Rightarrow> real \<times> real \<times> real" where
  "cosineLoop (x # xs) (y # ys) (dotProduct, normA, normB) =
     cosineLoop xs ys (dotProduct + x * y, normA + x * x, normB + y * y)"
| "cosineLoop xs ys acc = acc"

definition TransformersJs_cosineSimilarity :: "real list \<Rightarrow> real list \<Rightarrow> error + real" where
  "TransformersJs_cosineSimilarity a b =
     (if length a \<noteq> length b then Inl (Error ''Vectors must have the same length'')
      else (let (dotProduct, normA, normB) = cosineLoop a b (0, 0, 0);
                magnitude = sqrt normA * sqrt normB
            in if magnitude = 0 then Inr 0 else Inr (dotProduct / magnitude)))"

definition OpenAI_cosineSimilarity :: "real list \<Rightarrow> real list \<Rightarrow> error + real" where
  "OpenAI_cosineSimilarity a b =
     (if length a \<noteq> length b then Inl (Error ''Vectors must have the same length'')
      else (let (dotProduct, normA, normB) = cosineLoop a b (0, 0, 0);
                magnitude = sqrt normA * sqrt normB
            in if magnitude = 0 then Inr 0 else Inr (dotProduct / magnitude)))"

subsection \<open>\<open>OpenAIEmbeddingProvider.embedBatch\<close>\<close>

definition OpenAI_modelName :: string where
  "OpenAI_modelName = ''text-embedding-3-small''"

text \<open>
  The argument \<open>create\<close> is \<open>openai.embeddings.create\<close> with its \<open>input\<close>: a rejection, or
  the \<open>embedding\<close> of each item of \<open>response.data\<close>. The \<open>catch\<close> logs and throws again.
\<close>

definition OpenAI_embedBatch ::
  "(string list \<Rightarrow> error + real list list) \<Rightarrow> string list \<Rightarrow> error + embedding_result list" where
  "OpenAI_embedBatch create texts =
     (case create texts of
        Inl e \<Rightarrow> Inl e
      | Inr data \<Rightarrow>
          Inr (map (\<lambda>(item, index).
                      \<lparr>resEmbedding = item,
                       resText = (if index < length texts then Some (texts ! index) else None),
                       resModel = OpenAI_modelName\<rparr>)
                 (zip data [0..<length data])))"

subsection \<open>\<open>TransformersJsProvider.embedBatch\<close>\<close>

definition TransformersJs_modelName :: string where
  "TransformersJs_modelName = ''Xenova/all-MiniLM-L6-v2''"

text \<open>
  The local pipeline, as two outcomes: \<open>extractOne\<close> is what \<open>embed\<close> obtains for one text
  (loading the pipeline, running it, reading \<open>output.data\<close>), \<open>extractBatch\<close> is what
  \<open>embedBatch\<close> obtains for the filtered texts up to the end of the tensor handling (the
  array \<open>embeddings\<close>, or an exception thrown on the way).
\<close>

record transformers_env =
  extractOne :: "string \<Rightarrow> error + real list"
  extractBatch :: "string list \<Rightarrow> error + real list list"

text \<open>The test \<open>t && t.trim().length > 0\<close>.\<close>

definition validText :: "string \<Rightarrow> bool" where
  "validText t = (t \<noteq> [] \<and> length (trim t) > 0)"

definition emptyResult :: "string \<Rightarrow> embedding_result" where
  "emptyResult t = \<lparr>resEmbedding = [], resText = Some t, resModel = TransformersJs_modelName\<rparr>"

definition TransformersJs_embed :: "transformers_env \<Rightarrow> string \<Rightarrow> error + embedding_result" where
  "TransformersJs_embed env t =
     (case extractOne env t of
        Inl e \<Rightarrow> Inl e
      | Inr v \<Rightarrow> Inr \<lparr>resEmbedding = v, resText = Some t, resModel = TransformersJs_modelName\<rparr>)"

text \<open>
  The loop that maps the vectors back to the original texts; \<open>rest\<close> is \<open>embeddings\<close>
  from \<open>validIndex\<close> on. The count was validated before, so a valid text always finds its
  vector; the model gives the empty vector where JavaScript would read \<open>undefined\<close>.
\<close>

fun mapBack :: "string list \<Rightarrow> real list list \<Rightarrow> embedding_result list" where
  "mapBack [] rest = []"
| "mapBack (t # ts) rest =
     (if validText t then
        \<lparr>resEmbedding = (case rest of [] \<Rightarrow> [] | e # _ \<Rightarrow> e), resText = Some t,
         resModel = TransformersJs_modelName\<rparr> # mapBack ts (tl rest)
      else emptyResult t # mapBack ts rest)"

text \<open>The sequential fallback of the \<open>catch\<close>: a text whose \<open>embed\<close> fails gets the empty vector.\<close>

definition sequentialFallback :: "transformers_env \<Rightarrow> string list \<Rightarrow> embedding_result list" where
  "sequentialFallback env texts =
     map (\<lambda>t. case TransformersJs_embed env t of Inl e \<Rightarrow> emptyResult t | Inr r \<Rightarrow> r) texts"

definition TransformersJs_embedBatch ::
  "transformers_env \<Rightarrow> string list \<Rightarrow> error + embedding_result list" where
  "TransformersJs_embedBatch env texts =
     (if length texts = 0 then Inr []
      else (let validTexts = filter validText texts
            in if length validTexts = 0 then Inr (map emptyResult texts)
               else (case extractBatch env validTexts of
                       Inl e \<Rightarrow> Inr (sequentialFallback env texts)
                     | Inr embeddings \<Rightarrow>
                         if length embeddings \<noteq> length validTexts
                         then Inr (sequentialFallback env texts)
                         else Inr (mapBack texts embeddings))))"

section \<open>Transcription providers\<close>

text \<open>A \<open>TranscriptionResult\<close>: \<open>{segments, language, duration}\<close>.\<close>

record transcription_result =
  trSegments :: "segment list"
  trLanguage :: string
  trDuration :: real

text \<open>\<open>segments.reduce((acc, s) => Math.max(acc, s.end), 0)\<close>.\<close>

definition maxEnd :: "segment list \<Rightarrow> real" where
  "maxEnd segs = foldl (\<lambda>acc s. max acc (segEnd s)) 0 segs"

subsection \<open>\<open>WhisperCppProvider.transcribe\<close>\<close>

text \<open>
  The JSON body of the local service's answer (each property may be absent), and the
  response: \<open>response.ok\<close>, and what \<open>response.text()\<close> and \<open>response.json()\<close> resolve to.
\<close>

record whisper_data =
  dataSegments :: "segment list option"
  dataText :: "string option"
  dataLanguage :: "string option"

record http_response =
  responseOk :: bool
  responseText :: "error + string"
  responseJson :: "error + whisper_data"

text \<open>\<open>fs.readFileSync(audioPath)\<close> and \<open>fetch\<close> of the request that carries the file.\<close>

record whisper_env =
  readFileSync :: "string \<Rightarrow> error + nat list"
  fetch :: "nat list \<Rightarrow> error + http_response"

definition emptyTranscription :: transcription_result where
  "emptyTranscription = \<lparr>trSegments = [], trLanguage = ''en'', trDuration = 0\<rparr>"

text \<open>The body of the \<open>try\<close> block: \<open>Inl\<close> is an exception thrown inside it.\<close>

definition whisperTry :: "whisper_env \<Rightarrow> nat list \<Rightarrow> error + transcription_result" where
  "whisperTry env audioBuffer =
     (case fetch env audioBuffer of
        Inl e \<Rightarrow> Inl e
      | Inr response \<Rightarrow>
          if \<not> responseOk response then
            (case responseText response of
               Inl e \<Rightarrow> Inl e
             | Inr errorBody \<Rightarrow> Inl (Error ''Whisper API error''))
          else
            (case responseJson response of
               Inl e \<Rightarrow> Inl e
             | Inr data \<Rightarrow>
                 (let segments0 = (case dataSegments data of None \<Rightarrow> [] | Some ss \<Rightarrow> ss);
                      segments =
                        (case dataText data of
                           Some t \<Rightarrow>
                             if length segments0 = 0 \<and> t \<noteq> []
                             then [\<lparr>segStart = 0, segEnd = 0, segText = t\<rparr>] else segments0
                         | None \<Rightarrow> segments0)
                  in Inr \<lparr>trSegments = segments,
                          trLanguage = (case dataLanguage data of
                                          None \<Rightarrow> ''en'' | Some l \<Rightarrow> if l = [] then ''en'' else l),
                          trDuration = maxEnd segments\<rparr>)))"

text \<open>
  \<open>transcribe(audioPath)\<close>: the file is read before the \<open>try\<close> block is entered; the
  \<open>catch\<close> turns an exception of the block into the empty result.
\<close>

definition WhisperCpp_transcribe :: "whisper_env \<Rightarrow> string \<Rightarrow> error + transcription_result" where
  "WhisperCpp_transcribe env audioPath =
     (case readFileSync env audioPath of
        Inl e \<Rightarrow> Inl e
      | Inr audioBuffer \<Rightarrow>
          (case whisperTry env audioBuffer of
             Inl e \<Rightarrow> Inr emptyTranscription
           | Inr r \<Rightarrow> Inr r))"

subsection \<open>\<open>OpenAITranscriptionProvider\<close>: the size ceiling and \<open>transcribeInChunks\<close>\<close>

definition MAX_FILE_SIZE :: nat where
  "MAX_FILE_SIZE = 25 * 1024 * 1024"

definition TARGET_CHUNK_SIZE :: nat where
  "TARGET_CHUNK_SIZE = 20 * 1024 * 1024"

text \<open>
  The collaborators of one \<open>transcribe\<close> call: whether \<open>fs.promises.access\<close> finds the
  file, the size that \<open>fs.promises.stat\<close> reports (bytes), the configured API key, what
  \<open>getAudioDuration\<close> resolves to, the chunk file that \<open>extractAudioChunk\<close> writes for a
  start offset and a length (or the encoder's failure), the \<open>segments\<close> of the API's
  response for the chunk file it is sent (absent when the response has none), and the
  outcome of the single-request path (the retry loop and its error classification, with
  the extraction calls made when it ends in the chunked path), which this development
  does not analyse. The type \<open>'f\<close> stands for the contents of a chunk file.
\<close>

record 'f openai_env =
  fileExists :: bool
  statSize :: nat
  apiKey :: string
  getAudioDuration :: "error + real"
  extractAudioChunk :: "real \<Rightarrow> real \<Rightarrow> error + 'f"
  transcribeChunk :: "'f \<Rightarrow> error + segment list option"
  singleRequestPath :: "(error + transcription_result) \<times> (real \<times> real) list"

text \<open>\<open>Math.ceil(stats.size / TARGET_CHUNK_SIZE)\<close>.\<close>

definition numChunksOf :: "nat \<Rightarrow> nat" where
  "numChunksOf bytes = nat \<lceil>real bytes / real TARGET_CHUNK_SIZE\<rceil>"

text \<open>
  The adjustment of a chunk's timestamps, \<open>seg.start + startTime\<close> and
  \<open>seg.end + startTime\<close>, with the chunk's \<open>startTime\<close> as \<open>offset\<close>.
\<close>

definition offsetSegment :: "real \<Rightarrow> segment \<Rightarrow> segment" where
  "offsetSegment offset seg =
     \<lparr>segStart = segStart seg + offset, segEnd = segEnd seg + offset, segText = segText seg\<rparr>"

text \<open>
  The loop \<open>for (let i = 0; i < numChunks; i++)\<close> over the indices still to do. The first
  component is what the iterations push onto \<open>allSegments\<close>, or the first exception;
  the second is the trace of the \<open>extractAudioChunk\<close> calls: the start offset and the
  length passed, in call order. The API is sent the file that the iteration has just
  extracted.
\<close>

fun chunkLoop ::
  "'f openai_env \<Rightarrow> real \<Rightarrow> real \<Rightarrow> nat list \<Rightarrow> (error + segment list) \<times> (real \<times> real) list" where
  "chunkLoop env chunkDuration duration [] = (Inr [], [])"
| "chunkLoop env chunkDuration duration (i # is) =
     (let startTime = real i * chunkDuration;
          endTime = min (real (i + 1) * chunkDuration) duration
      in case extractAudioChunk env startTime (endTime - startTime) of
           Inl e \<Rightarrow> (Inl e, [(startTime, endTime - startTime)])
         | Inr chunkFile \<Rightarrow>
             (case transcribeChunk env chunkFile of
                Inl e \<Rightarrow> (Inl e, [(startTime, endTime - startTime)])
              | Inr responseSegments \<Rightarrow>
                  (let chunkSegments = (case responseSegments of
                                          None \<Rightarrow> []
                                        | Some ss \<Rightarrow> map (offsetSegment startTime) ss);
                       (later, calls) = chunkLoop env chunkDuration duration is
                   in (case later of
                         Inl e \<Rightarrow> Inl e
                       | Inr segs \<Rightarrow> Inr (chunkSegments @ segs),
                       (startTime, endTime - startTime) # calls))))"

text \<open>
  \<open>transcribeInChunks\<close>, with the trace of its extraction calls. \<open>Array.prototype.sort\<close>
  with the comparator \<open>a.start - b.start\<close> is a stable sort by \<open>start\<close>. The deletion of
  the chunk files (after each iteration and in the \<open>finally\<close>) is not modelled.
\<close>

definition transcribeInChunks ::
  "'f openai_env \<Rightarrow> (error + transcription_result) \<times> (real \<times> real) list" where
  "transcribeInChunks env =
     (let numChunks = numChunksOf (statSize env)
      in case getAudioDuration env of
           Inl e \<Rightarrow> (Inl e, [])
         | Inr duration \<Rightarrow>
             (let chunkDuration = duration / real numChunks;
                  (outcome, calls) = chunkLoop env chunkDuration duration [0..<numChunks]
              in case outcome of
                   Inl e \<Rightarrow> (Inl e, calls)
                 | Inr allSegments \<Rightarrow>
                     (let sortedSegments = sort_key segStart allSegments
                      in (Inr \<lparr>trSegments = sortedSegments, trLanguage = ''en'',
                               trDuration = maxEnd sortedSegments\<rparr>, calls))))"

text \<open>
  \<open>transcribe\<close> up to the choice between the chunked and the single-request path: the
  result, and the trace of the extraction calls made on the way.
\<close>

definition OpenAI_transcribe ::
  "'f openai_env \<Rightarrow> (error + transcription_result) \<times> (real \<times> real) list" where
  "OpenAI_transcribe env =
     (if \<not> fileExists env then (Inl (Error ''File not found''), [])
      else if apiKey env = [] \<or> length (apiKey env) < 10
      then (Inl (Error ''Invalid OpenAI API key format''), [])
      else if statSize env > MAX_FILE_SIZE then transcribeInChunks env
      else singleRequestPath env)"

section \<open>Highlight renderer: \<open>HighlightService.generateHighlightVideo\<close>\<close>

text \<open>\<open>HighlightStatus\<close>: \<open>PENDING\<close>, \<open>PROCESSING\<close>, \<open>READY\<close>, \<open>FAILED\<close>.\<close>

datatype highlight_status = HPENDING | HPROCESSING | HREADY | HFAILED

text \<open>
  A HighlightClip row as the renderer reads it: \<open>hcVideoPath\<close> is
  \<open>hClip.clip?.video?.path || hClip.video?.path\<close>, \<open>None\<close> when that value is falsy.
\<close>

record highlight_clip =
  hcVideoPath :: "string option"
  hcStartTime :: real
  hcEndTime :: real

text \<open>
  The Highlight row and the temp directory. A temp file's name comes from \<open>uuidv4()\<close>;
  the model draws the names from a counter, so that they are fresh.
\<close>

record highlight_world =
  highlightStatus :: highlight_status
  highlightOutputPath :: "string option"
  tempFiles :: "nat list"
  uuidCounter :: nat

text \<open>
  The collaborators: the clips of the highlight in their order (\<open>None\<close> when
  \<open>findUnique\<close> finds no highlight), the encoder run of \<open>extractClip\<close>, and
  \<open>concatenateClips\<close> (a file copy for one path, an encoder run otherwise).
\<close>

record highlight_env =
  findHighlight :: "highlight_clip list option"
  extractClip :: "string \<Rightarrow> real \<Rightarrow> real \<Rightarrow> error + unit"
  concatenateClips :: "nat list \<Rightarrow> error + unit"

text \<open>
  The loop \<open>for (const hClip of highlight.clips)\<close>: a clip without a video path is
  skipped; a successful extraction leaves its file in the temp directory and appends the
  path to \<open>clipPaths\<close>; a failed one throws.
\<close>

fun extractLoop ::
  "highlight_env \<Rightarrow> highlight_clip list \<Rightarrow> nat list \<Rightarrow> highlight_world
     \<Rightarrow> (error + nat list) \<times> highlight_world" where
  "extractLoop env [] clipPaths w = (Inr clipPaths, w)"
| "extractLoop env (hClip # rest) clipPaths w =
     (case hcVideoPath hClip of
        None \<Rightarrow> extractLoop env rest clipPaths w
      | Some videoPath \<Rightarrow>
          (let clipPath = uuidCounter w;
               w1 = w\<lparr>uuidCounter := Suc clipPath\<rparr>
           in case extractClip env videoPath (hcStartTime hClip) (hcEndTime hClip) of
                Inl e \<Rightarrow> (Inl e, w1)
              | Inr u \<Rightarrow>
                  extractLoop env rest (clipPaths @ [clipPath])
                    (w1\<lparr>tempFiles := tempFiles w1 @ [clipPath]\<rparr>)))"

text \<open>\<open>fs.unlink\<close> of every path in turn, errors ignored.\<close>

definition unlinkAll :: "nat list \<Rightarrow> highlight_world \<Rightarrow> highlight_world" where
  "unlinkAll paths w = w\<lparr>tempFiles := filter (\<lambda>f. f \<notin> set paths) (tempFiles w)\<rparr>"

text \<open>The body of the \<open>try\<close> block: \<open>Inl\<close> is an exception thrown inside it.\<close>

definition highlightTry ::
  "highlight_env \<Rightarrow> string \<Rightarrow> highlight_clip list \<Rightarrow> highlight_world
     \<Rightarrow> (error + string) \<times> highlight_world" where
  "highlightTry env highlightId hClips w =
     (case extractLoop env hClips [] w of
        (Inl e, w1) \<Rightarrow> (Inl e, w1)
      | (Inr clipPaths, w1) \<Rightarrow>
          if length clipPaths = 0 then (Inl (Error ''No valid clips to process''), w1)
          else
            (let outputPath = highlightId @ ''.mp4''
             in case concatenateClips env clipPaths of
                  Inl e \<Rightarrow> (Inl e, w1)
                | Inr u \<Rightarrow>
                    (let w2 = unlinkAll clipPaths w1
                     in (Inr outputPath,
                         w2\<lparr>highlightOutputPath := Some outputPath, highlightStatus := HREADY\<rparr>))))"

text \<open>
  \<open>generateHighlightVideo(highlightId)\<close>: the \<open>catch\<close> sets \<open>FAILED\<close> and throws again;
  the function has no \<open>finally\<close>.
\<close>

definition generateHighlightVideo ::
  "highlight_env \<Rightarrow> string \<Rightarrow> highlight_world \<Rightarrow> (error + string) \<times> highlight_world" where
  "generateHighlightVideo env highlightId w =
     (case findHighlight env of
        None \<Rightarrow> (Inl (Error ''Highlight not found''), w)
      | Some hClips \<Rightarrow>
          (case highlightTry env highlightId hClips (w\<lparr>highlightStatus := HPROCESSING\<rparr>) of
             (Inl e, w') \<Rightarrow> (Inl e, w'\<lparr>highlightStatus := HFAILED\<rparr>)
           | (Inr outputPath, w') \<Rightarrow> (Inr outputPath, w')))"

section \<open>Properties of completion detection\<close>

text \<open>A clip is pending when it has no embedding and its transcript is not the empty string.\<close>

lemma pendingClip_iff:
  "pendingClip vid c \<longleftrightarrow>
     clipVideoId c = vid \<and> embedding c = None \<and> transcript c \<noteq> Some []"
  by (cases "transcript c") (simp_all add: pendingClip_def)

lemma videoUpdateManyWhereStatus_clips:
  "clips (snd (videoUpdateManyWhereStatus vid g n d)) = clips d"
  by (simp add: videoUpdateManyWhereStatus_def)

lemma videoUpdateManyWhereStatus_count:
  "fst (videoUpdateManyWhereStatus vid g n d) > 0 \<longleftrightarrow>
     (\<exists>v \<in> set (videos d). videoId v = vid \<and> status v = g)"
  by (simp add: videoUpdateManyWhereStatus_def filter_empty_conv)

text \<open>Once the guarded update has run, no row of that video is left in the guard status.\<close>

lemma videoUpdateManyWhereStatus_again:
  assumes "g \<noteq> n"
  shows "videoUpdateManyWhereStatus vid g n (snd (videoUpdateManyWhereStatus vid g n d)) =
           (0, snd (videoUpdateManyWhereStatus vid g n d))"
proof -
  let ?f = "\<lambda>v. if videoId v = vid \<and> status v = g then v\<lparr>status := n\<rparr> else v"
  have none: "filter (\<lambda>v. videoId v = vid \<and> status v = g) (map ?f xs) = []" for xs
    by (induction xs) (use assms in auto)
  have same: "map ?f (map ?f xs) = map ?f xs" for xs
    by (induction xs) (use assms in auto)
  show ?thesis
    by (simp add: videoUpdateManyWhereStatus_def none same del: filter_map map_map)
qed

lemma checkVideoCompletion_pending:
  "countPendingClips vid d > 0 \<Longrightarrow>
     checkVideoCompletion vid d = (StillPending (countPendingClips vid d), d)"
  by (simp add: checkVideoCompletion_def)

lemma checkVideoCompletion_done:
  "countPendingClips vid d = 0 \<Longrightarrow>
     checkVideoCompletion vid d =
       (if fst (videoUpdateManyWhereStatus vid EMBEDDING READY d) > 0 then VideoReady
        else NotEmbedding,
        snd (videoUpdateManyWhereStatus vid EMBEDDING READY d))"
  by (simp add: checkVideoCompletion_def split: prod.splits)

lemma countPendingClips_after:
  "countPendingClips vid (snd (checkVideoCompletion vid d)) = countPendingClips vid d"
  by (cases "countPendingClips vid d > 0")
     (simp_all add: checkVideoCompletion_pending checkVideoCompletion_done
        countPendingClips_def videoUpdateManyWhereStatus_clips)

text \<open>
  Claim C1. One invocation of \<open>checkVideoCompletion\<close> leaves the clips alone and turns a
  video row to \<open>READY\<close> exactly when the row is the given video's, its status is
  \<open>EMBEDDING\<close>, and no clip of the video is pending (without an embedding, with a
  transcript that is null or not empty); it reports "Video ready" exactly when it made
  such a transition. A second invocation right after the first changes nothing and never
  reports a transition.
\<close>

theorem checkVideoCompletion_guarded_idempotent:
  "(let (report, d') = checkVideoCompletion vid d;
        (report2, d'') = checkVideoCompletion vid d'
    in countPendingClips vid d =
         length (filter (\<lambda>c. clipVideoId c = vid \<and> embedding c = None \<and> transcript c \<noteq> Some [])
                   (clips d)) \<and>
       clips d' = clips d \<and>
       videos d' =
         map (\<lambda>v. if videoId v = vid \<and> status v = EMBEDDING \<and> countPendingClips vid d = 0
                   then v\<lparr>status := READY\<rparr> else v) (videos d) \<and>
       (report = VideoReady \<longleftrightarrow>
          countPendingClips vid d = 0 \<and>
          (\<exists>v \<in> set (videos d). videoId v = vid \<and> status v = EMBEDDING)) \<and>
       d'' = d' \<and> report2 \<noteq> VideoReady)"
proof -
  have cnt: "countPendingClips vid d =
      length (filter (\<lambda>c. clipVideoId c = vid \<and> embedding c = None \<and> transcript c \<noteq> Some [])
                (clips d))"
  proof -
    have "pendingClip vid =
        (\<lambda>c. clipVideoId c = vid \<and> embedding c = None \<and> transcript c \<noteq> Some [])"
      by (rule ext) (rule pendingClip_iff)
    then show ?thesis by (simp add: countPendingClips_def)
  qed
  show ?thesis
  proof (cases "countPendingClips vid d > 0")
    case True
    then show ?thesis
      using cnt by (simp add: checkVideoCompletion_pending)
  next
    case False
    then have z: "countPendingClips vid d = 0" by simp
    let ?u = "videoUpdateManyWhereStatus vid EMBEDDING READY d"
    have z': "countPendingClips vid (snd ?u) = 0"
      using z by (simp add: countPendingClips_def videoUpdateManyWhereStatus_clips)
    have first: "checkVideoCompletion vid d =
        (if fst ?u > 0 then VideoReady else NotEmbedding, snd ?u)"
      using z by (rule checkVideoCompletion_done)
    have second: "checkVideoCompletion vid (snd ?u) = (NotEmbedding, snd ?u)"
      using checkVideoCompletion_done[OF z']
      by (simp add: videoUpdateManyWhereStatus_again)
    have vs: "videos (snd ?u) =
        map (\<lambda>v. if videoId v = vid \<and> status v = EMBEDDING \<and> countPendingClips vid d = 0
                  then v\<lparr>status := READY\<rparr> else v) (videos d)"
      using z by (simp add: videoUpdateManyWhereStatus_def)
    have rp: "fst ?u > 0 \<longleftrightarrow> (\<exists>v \<in> set (videos d). videoId v = vid \<and> status v = EMBEDDING)"
      by (rule videoUpdateManyWhereStatus_count)
    have cl: "clips (snd ?u) = clips d"
      by (rule videoUpdateManyWhereStatus_clips)
    have rep: "((if fst ?u > 0 then VideoReady else NotEmbedding) = VideoReady) \<longleftrightarrow>
        countPendingClips vid d = 0 \<and>
        (\<exists>v \<in> set (videos d). videoId v = vid \<and> status v = EMBEDDING)"
      using rp z by simp
    show ?thesis
      unfolding Let_def first case_prod_conv second
    proof (intro conjI)
      show "NotEmbedding \<noteq> VideoReady" by simp
    qed (rule cnt cl vs rep refl)+
  qed
qed

theorem checkVideoCompletion_guarded_idempotent_witness:
  "(let d = \<lparr>videos = [\<lparr>videoId = ''v1'', status = EMBEDDING\<rparr>,
                        \<lparr>videoId = ''v2'', status = EMBEDDING\<rparr>],
              clips = [\<lparr>clipId = 0, clipVideoId = ''v1'', startTime = 0, endTime = 10,
                        transcript = Some ''in summary'', embedding = Some [1, 0]\<rparr>,
                       \<lparr>clipId = 1, clipVideoId = ''v1'', startTime = 10, endTime = 12,
                        transcript = Some [], embedding = None\<rparr>,
                       \<lparr>clipId = 2, clipVideoId = ''v2'', startTime = 0, endTime = 5,
                        transcript = None, embedding = None\<rparr>]\<rparr>;
        (report, d') = checkVideoCompletion ''v1'' d;
        (report2, d'') = checkVideoCompletion ''v1'' d'
    in report = VideoReady \<and> report2 = NotEmbedding \<and> d'' = d' \<and>
       videos d' = [\<lparr>videoId = ''v1'', status = READY\<rparr>, \<lparr>videoId = ''v2'', status = EMBEDDING\<rparr>] \<and>
       fst (checkVideoCompletion ''v2'' d) = StillPending 1)"
  using checkVideoCompletion_guarded_idempotent
          [of "''v1''" "\<lparr>videos = [\<lparr>videoId = ''v1'', status = EMBEDDING\<rparr>,
                        \<lparr>videoId = ''v2'', status = EMBEDDING\<rparr>],
              clips = [\<lparr>clipId = 0, clipVideoId = ''v1'', startTime = 0, endTime = 10,
                        transcript = Some ''in summary'', embedding = Some [1, 0]\<rparr>,
                       \<lparr>clipId = 1, clipVideoId = ''v1'', startTime = 10, endTime = 12,
                        transcript = Some [], embedding = None\<rparr>,
                       \<lparr>clipId = 2, clipVideoId = ''v2'', startTime = 0, endTime = 5,
                        transcript = None, embedding = None\<rparr>]\<rparr>"]
  by (simp add: checkVideoCompletion_def countPendingClips_def pendingClip_def
        videoUpdateManyWhereStatus_def Let_def)

section \<open>Properties of clip materialization\<close>

lemma clipLoop_emit:
  assumes "nextSceneOf dur rest - cur \<ge> m \<or> rest = []"
  shows "fst (clipLoop vid dur m cur (s # rest) d) =
           \<lparr>refId = length (clips d), refStart = cur, refEnd = nextSceneOf dur rest\<rparr> #
           fst (clipLoop vid dur m (nextSceneOf dur rest) rest
                  (snd (clipCreate vid cur (nextSceneOf dur rest) d)))"
  using assms by (simp add: Let_def clipCreate_def split: prod.splits)

lemma clipLoop_skip:
  assumes "\<not> (nextSceneOf dur rest - cur \<ge> m \<or> rest = [])"
  shows "fst (clipLoop vid dur m cur (s # rest) d) = fst (clipLoop vid dur m cur rest d)"
  using assms by (simp add: Let_def split: prod.splits)

text \<open>The first clip the loop emits starts at the pending start.\<close>

lemma clipLoop_start:
  "fst (clipLoop vid dur m cur scenes d) = c # cs \<Longrightarrow> refStart c = cur"
proof (induction scenes arbitrary: d)
  case Nil
  then show ?case by simp
next
  case (Cons s rest)
  show ?case
  proof (cases "nextSceneOf dur rest - cur \<ge> m \<or> rest = []")
    case True
    from Cons.prems clipLoop_emit[OF True, of vid s d] show ?thesis by auto
  next
    case False
    from Cons.prems clipLoop_skip[OF False, of vid s d] Cons.IH show ?thesis by simp
  qed
qed

lemma clipLoop_contiguous:
  "successively (\<lambda>a b. refEnd a = refStart b) (fst (clipLoop vid dur m cur scenes d))"
proof (induction scenes arbitrary: cur d)
  case Nil
  then show ?case by simp
next
  case (Cons s rest)
  show ?case
  proof (cases "nextSceneOf dur rest - cur \<ge> m \<or> rest = []")
    case True
    let ?n = "nextSceneOf dur rest"
    let ?tl = "fst (clipLoop vid dur m ?n rest (snd (clipCreate vid cur ?n d)))"
    have tl: "successively (\<lambda>a b. refEnd a = refStart b) ?tl" by (rule Cons.IH)
    have hd: "?tl = c # cs \<Longrightarrow> refStart c = ?n" for c cs by (rule clipLoop_start)
    show ?thesis
      unfolding clipLoop_emit[OF True] using tl hd
      by (cases ?tl) (simp_all add: successively_Cons)
  next
    case False
    show ?thesis unfolding clipLoop_skip[OF False] by (rule Cons.IH)
  qed
qed

text \<open>Only the clip of the last iteration can be shorter than the minimum.\<close>

lemma clipLoop_min:
  "\<forall>c \<in> set (butlast (fst (clipLoop vid dur m cur scenes d))). m \<le> refEnd c - refStart c"
proof (induction scenes arbitrary: cur d)
  case Nil
  then show ?case by simp
next
  case (Cons s rest)
  show ?case
  proof (cases "nextSceneOf dur rest - cur \<ge> m \<or> rest = []")
    case True
    let ?n = "nextSceneOf dur rest"
    let ?tl = "fst (clipLoop vid dur m ?n rest (snd (clipCreate vid cur ?n d)))"
    have tl: "\<forall>c \<in> set (butlast ?tl). m \<le> refEnd c - refStart c" by (rule Cons.IH)
    have e: "rest = [] \<Longrightarrow> ?tl = []" by simp
    show ?thesis
      unfolding clipLoop_emit[OF True] using tl e True
      by (cases ?tl) auto
  next
    case False
    show ?thesis unfolding clipLoop_skip[OF False] by (rule Cons.IH)
  qed
qed

lemma clipLoop_nonempty:
  "scenes \<noteq> [] \<Longrightarrow> fst (clipLoop vid dur m cur scenes d) \<noteq> []"
proof (induction scenes arbitrary: cur d)
  case Nil
  then show ?case by simp
next
  case (Cons s rest)
  show ?case
  proof (cases "nextSceneOf dur rest - cur \<ge> m \<or> rest = []")
    case True
    show ?thesis unfolding clipLoop_emit[OF True] by simp
  next
    case False
    then have "rest \<noteq> []" by simp
    then show ?thesis unfolding clipLoop_skip[OF False] by (rule Cons.IH)
  qed
qed

text \<open>For a non-empty list of boundaries the function returns what its loop emits.\<close>

lemma createClipsFromScenes_nonempty:
  assumes "scenes = s0 # rest"
  shows "fst (createClipsFromScenes vid scenes dur m d) = fst (clipLoop vid dur m s0 scenes d)"
proof -
  obtain cs d' where r: "clipLoop vid dur m s0 scenes d = (cs, d')"
    by (cases "clipLoop vid dur m s0 scenes d")
  have "fst (clipLoop vid dur m s0 scenes d) \<noteq> []"
    by (rule clipLoop_nonempty) (simp add: assms)
  with r have "cs \<noteq> []" by simp
  then have "createClipsFromScenes vid (s0 # rest) dur m d = (cs, d')"
    using r assms by (simp add: createClipsFromScenes_def del: clipLoop.simps)
  then show ?thesis using r assms by simp
qed

lemma createClipsFromScenes_empty:
  "fst (createClipsFromScenes vid [] dur m d) =
     [\<lparr>refId = length (clips d), refStart = 0, refEnd = dur\<rparr>]"
  by (simp add: createClipsFromScenes_def clipCreate_def Let_def)

lemma clipLoop_emit_full:
  assumes "nextSceneOf dur rest - cur \<ge> m \<or> rest = []"
  shows "clipLoop vid dur m cur (s # rest) d =
           (\<lparr>refId = length (clips d), refStart = cur, refEnd = nextSceneOf dur rest\<rparr> #
              fst (clipLoop vid dur m (nextSceneOf dur rest) rest
                     (snd (clipCreate vid cur (nextSceneOf dur rest) d))),
            snd (clipLoop vid dur m (nextSceneOf dur rest) rest
                   (snd (clipCreate vid cur (nextSceneOf dur rest) d))))"
  using assms by (simp add: Let_def clipCreate_def split: prod.splits)

lemma clipLoop_skip_full:
  assumes "\<not> (nextSceneOf dur rest - cur \<ge> m \<or> rest = [])"
  shows "clipLoop vid dur m cur (s # rest) d = clipLoop vid dur m cur rest d"
  using assms by (simp add: Let_def split: prod.splits)

text \<open>The rows that the loop adds to the store are the clips it returns, in order.\<close>

lemma clipLoop_rows:
  "clips (snd (clipLoop vid dur m cur scenes d)) =
     clips d @ map (\<lambda>c. \<lparr>clipId = refId c, clipVideoId = vid, startTime = refStart c,
                           endTime = refEnd c, transcript = None, embedding = None\<rparr>)
                (fst (clipLoop vid dur m cur scenes d)) \<and>
   videos (snd (clipLoop vid dur m cur scenes d)) = videos d"
proof (induction scenes arbitrary: cur d)
  case Nil
  then show ?case by simp
next
  case (Cons s rest)
  show ?case
  proof (cases "nextSceneOf dur rest - cur \<ge> m \<or> rest = []")
    case True
    show ?thesis
      unfolding clipLoop_emit_full[OF True] fst_conv snd_conv
      by (simp add: Cons.IH) (simp add: clipCreate_def Let_def)
  next
    case False
    show ?thesis unfolding clipLoop_skip_full[OF False] by (rule Cons.IH)
  qed
qed

lemma createClipsFromScenes_rows:
  "clips (snd (createClipsFromScenes vid scenes dur m d)) =
     clips d @ map (\<lambda>c. \<lparr>clipId = refId c, clipVideoId = vid, startTime = refStart c,
                           endTime = refEnd c, transcript = None, embedding = None\<rparr>)
                (fst (createClipsFromScenes vid scenes dur m d))"
proof (cases scenes)
  case Nil
  then show ?thesis by (simp add: createClipsFromScenes_def clipCreate_def Let_def)
next
  case (Cons s0 rest)
  obtain cs d' where r: "clipLoop vid dur m s0 scenes d = (cs, d')"
    by (cases "clipLoop vid dur m s0 scenes d")
  have "fst (clipLoop vid dur m s0 scenes d) \<noteq> []"
    by (rule clipLoop_nonempty) (simp add: Cons)
  with r have "cs \<noteq> []" by simp
  then have "createClipsFromScenes vid (s0 # rest) dur m d = (cs, d')"
    using r Cons by (simp add: createClipsFromScenes_def del: clipLoop.simps)
  then show ?thesis
    using clipLoop_rows[of vid dur m s0 scenes d] r Cons by simp
qed

lemma createClipsFromScenes_shape:
  fixes scenes :: "real list"
  shows "(let cs = fst (createClipsFromScenes vid scenes duration minClipDuration d)
          in cs \<noteq> [] \<and>
             (\<forall>i. Suc i < length cs \<longrightarrow> minClipDuration \<le> refEnd (cs ! i) - refStart (cs ! i)) \<and>
             (\<forall>i. Suc i < length cs \<longrightarrow> refEnd (cs ! i) = refStart (cs ! Suc i)) \<and>
             (scenes = [] \<longrightarrow>
                cs = [\<lparr>refId = length (clips d), refStart = 0, refEnd = duration\<rparr>]))"
proof (cases scenes)
  case Nil
  then show ?thesis by (simp add: createClipsFromScenes_empty)
next
  case (Cons s0 rest)
  let ?cs = "fst (clipLoop vid duration minClipDuration s0 scenes d)"
  have eq: "fst (createClipsFromScenes vid scenes duration minClipDuration d) = ?cs"
    using Cons by (rule createClipsFromScenes_nonempty)
  have ne: "?cs \<noteq> []" by (rule clipLoop_nonempty) (simp add: Cons)
  have mn: "minClipDuration \<le> refEnd (?cs ! i) - refStart (?cs ! i)" if "Suc i < length ?cs" for i
  proof -
    from that have "?cs ! i \<in> set (butlast ?cs)"
      by (metis Suc_lessD in_set_conv_nth length_butlast less_diff_conv nth_butlast Suc_eq_plus1)
    then show ?thesis using clipLoop_min by blast
  qed
  have ct: "refEnd (?cs ! i) = refStart (?cs ! Suc i)" if "Suc i < length ?cs" for i
    using clipLoop_contiguous[of vid duration minClipDuration s0 scenes d] that
    by (simp add: successively_conv_nth)
  show ?thesis
    unfolding Let_def eq using ne mn ct Cons by simp
qed

text \<open>
  Claim C3. For every list of scene boundaries, every duration and every minimum clip
  duration (3 seconds by default), the clips that \<open>createClipsFromScenes\<close> returns are
  never none; every clip but the last is at least as long as the minimum; each clip ends
  where the next one starts; when the loop emits nothing (which happens for the empty
  list only) the result is the single clip from 0 to the duration; and the Clip rows
  added to the store are the returned clips, in order.
\<close>

theorem createClipsFromScenes_min_duration_contiguous:
  fixes scenes :: "real list"
  shows "(let cs = fst (createClipsFromScenes vid scenes duration minClipDuration d)
          in cs \<noteq> [] \<and>
             (\<forall>i. Suc i < length cs \<longrightarrow> minClipDuration \<le> refEnd (cs ! i) - refStart (cs ! i)) \<and>
             (\<forall>i. Suc i < length cs \<longrightarrow> refEnd (cs ! i) = refStart (cs ! Suc i)) \<and>
             (scenes = [] \<longrightarrow>
                cs = [\<lparr>refId = length (clips d), refStart = 0, refEnd = duration\<rparr>]) \<and>
             clips (snd (createClipsFromScenes vid scenes duration minClipDuration d)) =
               clips d @ map (\<lambda>c. \<lparr>clipId = refId c, clipVideoId = vid, startTime = refStart c,
                                     endTime = refEnd c, transcript = None, embedding = None\<rparr>)
                          cs)"
  using createClipsFromScenes_shape[of vid scenes duration minClipDuration d]
        createClipsFromScenes_rows[of vid scenes duration minClipDuration d]
  unfolding Let_def by blast

theorem createClipsFromScenes_min_duration_contiguous_witness:
  "(let cs = fst (createClipsFromScenes ''v1'' [0, 1, 2, 5, 9] 10 defaultMinClipDuration
                    \<lparr>videos = [], clips = []\<rparr>)
    in length cs = 3 \<and>
       defaultMinClipDuration \<le> refEnd (cs ! 0) - refStart (cs ! 0) \<and>
       defaultMinClipDuration \<le> refEnd (cs ! 1) - refStart (cs ! 1) \<and>
       refEnd (cs ! 0) = refStart (cs ! 1) \<and>
       refEnd (cs ! 1) = refStart (cs ! 2) \<and>
       refEnd (cs ! 2) - refStart (cs ! 2) < defaultMinClipDuration) \<and>
   fst (createClipsFromScenes ''v1'' [] 10 defaultMinClipDuration \<lparr>videos = [], clips = []\<rparr>) =
     [\<lparr>refId = 0, refStart = 0, refEnd = 10\<rparr>]"
  using createClipsFromScenes_min_duration_contiguous
          [of "''v1''" "[0, 1, 2, 5, 9]" 10 defaultMinClipDuration "\<lparr>videos = [], clips = []\<rparr>"]
        createClipsFromScenes_min_duration_contiguous
          [of "''v1''" "[]" 10 defaultMinClipDuration "\<lparr>videos = [], clips = []\<rparr>"]
  by (simp add: createClipsFromScenes_def clipCreate_def nextSceneOf_def
        defaultMinClipDuration_def Let_def)

text \<open>
  A video of at most 30 seconds gets the boundaries \<open>[0, duration]\<close>; when it is at least
  as long as the minimum, the loop creates a zero-length clip after the clip of the whole
  video.
\<close>

lemma createClipsFromScenes_short_video:
  assumes "m \<le> duration" and "duration \<noteq> 0"
  shows "fst (createClipsFromScenes vid [0, duration] duration m d) =
           [\<lparr>refId = length (clips d), refStart = 0, refEnd = duration\<rparr>,
            \<lparr>refId = Suc (length (clips d)), refStart = duration, refEnd = duration\<rparr>]"
  using assms
  by (simp add: createClipsFromScenes_def clipCreate_def nextSceneOf_def Let_def)

text \<open>
  Claim C4 (the code at the failing input). For a 10 second video the worker passes the
  boundaries \<open>[0, 10]\<close>: the loop runs once more after the last interval, where
  \<open>scenes[i + 1]\<close> is \<open>undefined\<close>, and creates a second clip from 10 to 10, whose end is
  not after its start.
\<close>

theorem createClipsFromScenes_zero_length_clip:
  "createClipsFromScenes ''v1'' [0, 10] 10 defaultMinClipDuration
     \<lparr>videos = [\<lparr>videoId = ''v1'', status = PROCESSING\<rparr>], clips = []\<rparr> =
   ([\<lparr>refId = 0, refStart = 0, refEnd = 10\<rparr>, \<lparr>refId = 1, refStart = 10, refEnd = 10\<rparr>],
    \<lparr>videos = [\<lparr>videoId = ''v1'', status = PROCESSING\<rparr>],
     clips = [\<lparr>clipId = 0, clipVideoId = ''v1'', startTime = 0, endTime = 10,
               transcript = None, embedding = None\<rparr>,
              \<lparr>clipId = 1, clipVideoId = ''v1'', startTime = 10, endTime = 10,
               transcript = None, embedding = None\<rparr>]\<rparr>)"
  by (simp add: createClipsFromScenes_def clipCreate_def nextSceneOf_def
        defaultMinClipDuration_def Let_def)

section \<open>Properties of the transcript-to-clip mapping\<close>

lemma mapTranscripts_Cons:
  "snd (mapTranscripts (clip # rest) segments d) =
     snd (mapTranscripts rest segments
            (clipUpdateTranscript (refId clip) (clipTranscript clip segments) d))"
  by (simp add: Let_def split: prod.splits)

lemma in_clipUpdateTranscript:
  assumes "row \<in> set (clips (clipUpdateTranscript j t d))"
  obtains r where "r \<in> set (clips d)"
    and "row = (if clipId r = j then r\<lparr>transcript := Some t\<rparr> else r)"
proof -
  from assms
  have "row \<in> (\<lambda>c. if clipId c = j then c\<lparr>transcript := Some t\<rparr> else c) ` set (clips d)"
    by (simp add: clipUpdateTranscript_def)
  then show thesis using that by blast
qed

lemma clipUpdateTranscript_other:
  assumes "i \<noteq> j"
    and "\<forall>row \<in> set (clips d). clipId row = i \<longrightarrow> transcript row = x"
  shows "\<forall>row \<in> set (clips (clipUpdateTranscript j t d)). clipId row = i \<longrightarrow> transcript row = x"
proof
  fix row
  assume "row \<in> set (clips (clipUpdateTranscript j t d))"
  then obtain r where r: "r \<in> set (clips d)"
    and row: "row = (if clipId r = j then r\<lparr>transcript := Some t\<rparr> else r)"
    by (rule in_clipUpdateTranscript)
  show "clipId row = i \<longrightarrow> transcript row = x"
    using assms r row by (cases "clipId r = j") simp_all
qed

lemma clipUpdateTranscript_same:
  "\<forall>row \<in> set (clips (clipUpdateTranscript j t d)). clipId row = j \<longrightarrow> transcript row = Some t"
proof
  fix row
  assume "row \<in> set (clips (clipUpdateTranscript j t d))"
  then obtain r where "row = (if clipId r = j then r\<lparr>transcript := Some t\<rparr> else r)"
    by (rule in_clipUpdateTranscript)
  then show "clipId row = j \<longrightarrow> transcript row = Some t"
    by (cases "clipId r = j") simp_all
qed

lemma clipUpdateTranscript_ids:
  "map clipId (clips (clipUpdateTranscript j t d)) = map clipId (clips d)"
  by (simp add: clipUpdateTranscript_def comp_def if_distrib cong: if_cong)

text \<open>The loop leaves alone the transcript of every row whose clip it does not visit.\<close>

lemma mapTranscripts_other:
  assumes "i \<notin> refId ` set cs"
    and "\<forall>row \<in> set (clips d). clipId row = i \<longrightarrow> transcript row = x"
  shows "\<forall>row \<in> set (clips (snd (mapTranscripts cs segments d))).
           clipId row = i \<longrightarrow> transcript row = x"
  using assms
proof (induction cs arbitrary: d)
  case Nil
  then show ?case by simp
next
  case (Cons c rest)
  from Cons.prems(1) have ne: "i \<noteq> refId c" and notin: "i \<notin> refId ` set rest" by auto
  have "\<forall>row \<in> set (clips (clipUpdateTranscript (refId c) (clipTranscript c segments) d)).
          clipId row = i \<longrightarrow> transcript row = x"
    using ne Cons.prems(2) by (rule clipUpdateTranscript_other)
  with notin show ?case
    unfolding mapTranscripts_Cons by (rule Cons.IH)
qed

lemma mapTranscripts_persisted:
  assumes "distinct (map refId cs)" and "clip \<in> set cs"
  shows "\<forall>row \<in> set (clips (snd (mapTranscripts cs segments d))).
           clipId row = refId clip \<longrightarrow> transcript row = Some (clipTranscript clip segments)"
  using assms
proof (induction cs arbitrary: d)
  case Nil
  then show ?case by simp
next
  case (Cons c rest)
  let ?d = "clipUpdateTranscript (refId c) (clipTranscript c segments) d"
  show ?case
  proof (cases "clip = c")
    case True
    from Cons.prems(1) have "refId c \<notin> refId ` set rest" by simp
    then show ?thesis
      unfolding mapTranscripts_Cons True
      using clipUpdateTranscript_same by (rule mapTranscripts_other)
  next
    case False
    with Cons.prems have "distinct (map refId rest)" and "clip \<in> set rest" by auto
    then show ?thesis
      unfolding mapTranscripts_Cons by (rule Cons.IH)
  qed
qed

lemma mapTranscripts_ids:
  "map clipId (clips (snd (mapTranscripts cs segments d))) = map clipId (clips d)"
proof (induction cs arbitrary: d)
  case Nil
  then show ?case by simp
next
  case (Cons c rest)
  show ?case
    unfolding mapTranscripts_Cons by (simp add: Cons.IH clipUpdateTranscript_ids)
qed

text \<open>The array \<open>clipTranscripts\<close> has one entry per clip, in order.\<close>

lemma mapTranscripts_fst_Cons:
  "fst (mapTranscripts (clip # rest) segments d) =
     \<lparr>ctClipId = refId clip, ctTranscript = clipTranscript clip segments,
      hasTranscript = (length (clipTranscript clip segments) > 0)\<rparr> #
     fst (mapTranscripts rest segments
            (clipUpdateTranscript (refId clip) (clipTranscript clip segments) d))"
  by (simp add: Let_def split: prod.splits)

lemma mapTranscripts_fst:
  "fst (mapTranscripts cs segments d) =
     map (\<lambda>clip. \<lparr>ctClipId = refId clip, ctTranscript = clipTranscript clip segments,
                   hasTranscript = (length (clipTranscript clip segments) > 0)\<rparr>) cs"
proof (induction cs arbitrary: d)
  case Nil
  then show ?case by simp
next
  case (Cons c rest)
  show ?case unfolding mapTranscripts_fst_Cons Cons.IH by simp
qed

text \<open>
  Claim C5 as stated fails: a zero-length marker at second 5 lies strictly inside the clip
  from 0 to 10, so the specification's rule does not assign it, and the worker does.
\<close>

theorem overlappingSegments_interior_marker_counterexample:
  "overlappingSegments \<lparr>refId = 0, refStart = 0, refEnd = 10\<rparr>
     [\<lparr>segStart = 5, segEnd = 5, segText = ''in summary''\<rparr>] \<noteq>
   filter (spec_segmentBelongs \<lparr>refId = 0, refStart = 0, refEnd = 10\<rparr>)
     [\<lparr>segStart = 5, segEnd = 5, segText = ''in summary''\<rparr>]"
  by (simp add: overlappingSegments_def overlapsClip_def spec_segmentBelongs_def)

text \<open>
  Claim C5, amended. For every list of clips with distinct identifiers, every clip of the
  list and every list of transcript segments: the segments assigned to the clip are, in
  segment order, exactly those with \<open>max(segStart, clipStart) < min(segEnd, clipEnd)\<close> or
  with \<open>clipStart \<le> segStart\<close> and \<open>segEnd \<le> clipEnd\<close> (which takes in a zero-length marker
  anywhere in the clip's closed interval); after the loop, the transcript of every row
  with the clip's identifier is the trimmed, space-joined concatenation of the texts of
  those segments; and the loop adds and removes no row.
\<close>

theorem mapTranscripts_assignment:
  assumes "distinct (map refId cs)" and "clip \<in> set cs"
  shows "overlappingSegments clip segments =
           filter (\<lambda>s. max (segStart s) (refStart clip) < min (segEnd s) (refEnd clip) \<or>
                       (refStart clip \<le> segStart s \<and> segEnd s \<le> refEnd clip)) segments \<and>
         (\<forall>row \<in> set (clips (snd (mapTranscripts cs segments d))).
            clipId row = refId clip \<longrightarrow>
            transcript row =
              Some (trim (join '' '' (map segText (overlappingSegments clip segments))))) \<and>
         map clipId (clips (snd (mapTranscripts cs segments d))) = map clipId (clips d)"
proof (intro conjI)
  show "overlappingSegments clip segments =
          filter (\<lambda>s. max (segStart s) (refStart clip) < min (segEnd s) (refEnd clip) \<or>
                      (refStart clip \<le> segStart s \<and> segEnd s \<le> refEnd clip)) segments"
    unfolding overlappingSegments_def
    by (rule filter_cong) (simp_all add: overlapsClip_def Let_def)
  show "\<forall>row \<in> set (clips (snd (mapTranscripts cs segments d))).
          clipId row = refId clip \<longrightarrow>
          transcript row =
            Some (trim (join '' '' (map segText (overlappingSegments clip segments))))"
    using mapTranscripts_persisted[OF assms, of segments d]
    by (simp add: clipTranscript_def)
  show "map clipId (clips (snd (mapTranscripts cs segments d))) = map clipId (clips d)"
    by (rule mapTranscripts_ids)
qed

theorem mapTranscripts_assignment_witness:
  "(let c0 = \<lparr>refId = 0, refStart = 0, refEnd = 10\<rparr>;
        c1 = \<lparr>refId = 1, refStart = 10, refEnd = 20\<rparr>;
        s1 = \<lparr>segStart = 0, segEnd = 4, segText = '' hello''\<rparr>;
        s2 = \<lparr>segStart = 5, segEnd = 5, segText = ''in summary''\<rparr>;
        s3 = \<lparr>segStart = 9, segEnd = 12, segText = ''and''\<rparr>;
        s4 = \<lparr>segStart = 20, segEnd = 20, segText = ''end ''\<rparr>;
        d = \<lparr>videos = [\<lparr>videoId = ''v1'', status = EMBEDDING\<rparr>],
             clips = [\<lparr>clipId = 0, clipVideoId = ''v1'', startTime = 0, endTime = 10,
                       transcript = None, embedding = None\<rparr>,
                      \<lparr>clipId = 1, clipVideoId = ''v1'', startTime = 10, endTime = 20,
                       transcript = None, embedding = None\<rparr>]\<rparr>
    in distinct (map refId [c0, c1]) \<and> c0 \<in> set [c0, c1] \<and>
       overlappingSegments c0 [s1, s2, s3, s4] = [s1, s2, s3] \<and>
       overlappingSegments c1 [s1, s2, s3, s4] = [s3, s4] \<and>
       map transcript (clips (snd (mapTranscripts [c0, c1] [s1, s2, s3, s4] d))) =
         [Some ''hello in summary and'', Some ''and end''])"
  using mapTranscripts_assignment
          [of "[\<lparr>refId = 0, refStart = 0, refEnd = 10\<rparr>, \<lparr>refId = 1, refStart = 10, refEnd = 20\<rparr>]"
              "\<lparr>refId = 0, refStart = 0, refEnd = 10\<rparr>"
              "[\<lparr>segStart = 0, segEnd = 4, segText = '' hello''\<rparr>,
                \<lparr>segStart = 5, segEnd = 5, segText = ''in summary''\<rparr>,
                \<lparr>segStart = 9, segEnd = 12, segText = ''and''\<rparr>,
                \<lparr>segStart = 20, segEnd = 20, segText = ''end ''\<rparr>]"
              "\<lparr>videos = [\<lparr>videoId = ''v1'', status = EMBEDDING\<rparr>],
               clips = [\<lparr>clipId = 0, clipVideoId = ''v1'', startTime = 0, endTime = 10,
                         transcript = None, embedding = None\<rparr>,
                        \<lparr>clipId = 1, clipVideoId = ''v1'', startTime = 10, endTime = 20,
                         transcript = None, embedding = None\<rparr>]\<rparr>"]
  by (simp add: overlappingSegments_def overlapsClip_def clipTranscript_def
        clipUpdateTranscript_def trim_def isWhiteSpace_def Let_def)

section \<open>The embedding stage when no clip has a transcript\<close>

text \<open>
  With no clip that has a transcript the stage takes the \<open>else\<close> branch, whose loop runs
  over an empty list: nothing is embedded or enqueued, and \<open>checkVideoCompletion\<close> is not
  called. The call that the source makes for an empty \<open>transcripts\<close> array sits inside the
  branch guarded by \<open>clipsWithTranscript.length > 0\<close> and is never reached.
\<close>

lemma embeddingStage_no_transcripts:
  assumes "filter hasTranscript clipTranscripts = []"
  shows "embeddingStage env vid clipTranscripts w = (False, w)"
  using assms by (simp add: embeddingStage_def enqueueEmbeddings_def)

text \<open>
  Without segments every transcript is empty, so for every video whose transcription
  returns no segment the worker enqueues nothing, makes no batch call and never calls
  \<open>checkVideoCompletion\<close>.
\<close>

lemma clipTranscript_no_segments: "clipTranscript clip [] = []"
  by (simp add: clipTranscript_def overlappingSegments_def trim_def)

lemma mapTranscripts_no_segments:
  "filter hasTranscript (fst (mapTranscripts cs [] d)) = []"
  by (simp add: mapTranscripts_fst clipTranscript_no_segments filter_empty_conv)

lemma setStatus_traces:
  "embeddingQueue (setStatus vid st w) = embeddingQueue w \<and>
   batchCalls (setStatus vid st w) = batchCalls w \<and>
   completionLog (setStatus vid st w) = completionLog w"
  by (simp add: setStatus_def)

lemma videoWorkerFromScenes_zero_segments:
  assumes "transcribeFullVideo env = Inr []"
  shows "embeddingQueue (snd (videoWorkerFromScenes env vid duration scenes w)) = embeddingQueue w \<and>
         batchCalls (snd (videoWorkerFromScenes env vid duration scenes w)) = batchCalls w \<and>
         completionLog (snd (videoWorkerFromScenes env vid duration scenes w)) = completionLog w"
proof -
  obtain cs d2 where c: "createClipsFromScenes vid scenes duration defaultMinClipDuration
      (store w) = (cs, d2)"
    by (cases "createClipsFromScenes vid scenes duration defaultMinClipDuration (store w)")
  let ?w3 = "setStatus vid EMBEDDING (setStatus vid TRANSCRIBING (w\<lparr>store := d2\<rparr>))"
  obtain cts d4 where m: "mapTranscripts cs [] (store ?w3) = (cts, d4)"
    by (cases "mapTranscripts cs [] (store ?w3)")
  have "filter hasTranscript (fst (mapTranscripts cs [] (store ?w3))) = []"
    by (rule mapTranscripts_no_segments)
  with m have none: "filter hasTranscript cts = []" by simp
  have "videoWorkerFromScenes env vid duration scenes w = (Inr (), ?w3\<lparr>store := d4\<rparr>)"
    using assms c m
    by (simp add: videoWorkerFromScenes_def Let_def embeddingStage_no_transcripts[OF none])
  then show ?thesis by (simp add: setStatus_traces)
qed

lemma videoWorkerTry_zero_segments:
  assumes "transcribeFullVideo env = Inr []"
  shows "embeddingQueue (snd (videoWorkerTry env vid w)) = embeddingQueue w \<and>
         batchCalls (snd (videoWorkerTry env vid w)) = batchCalls w \<and>
         completionLog (snd (videoWorkerTry env vid w)) = completionLog w"
  using videoWorkerFromScenes_zero_segments[OF assms, of vid _ _ "setStatus vid PROCESSING w"]
  by (simp add: videoWorkerTry_def Let_def setStatus_traces split: sum.splits)

lemma videoWorker_zero_segments_no_completion_check:
  assumes "transcribeFullVideo env = Inr []"
  shows "embeddingQueue (snd (videoWorker env vid w)) = embeddingQueue w \<and>
         batchCalls (snd (videoWorker env vid w)) = batchCalls w \<and>
         completionLog (snd (videoWorker env vid w)) = completionLog w"
proof (cases "videoWorkerTry env vid w")
  case (Pair r w')
  with videoWorkerTry_zero_segments[OF assms, of vid w]
  have "embeddingQueue w' = embeddingQueue w \<and> batchCalls w' = batchCalls w \<and>
      completionLog w' = completionLog w" by simp
  with Pair show ?thesis
    by (cases r) (simp_all add: videoWorker_def setStatus_traces)
qed

text \<open>
  Claim C2 (the code at the failing input). A 10 second video whose transcription returns
  zero segments: both clips get the empty transcript, no batch call is made and no job is
  enqueued, but no completion check runs either, and the video's status stays
  \<open>EMBEDDING\<close>.
\<close>

theorem videoWorker_zero_segments_stays_embedding:
  "videoWorker
     \<lparr>fileAccessible = True, metadataDuration = Inr 10, detectScenes = Inr [],
      transcribeFullVideo = Inr [],
      generateEmbeddingsBatch = (\<lambda>ts. Inr (map (\<lambda>t. [1, 0]) ts))\<rparr>
     ''v1''
     \<lparr>store = \<lparr>videos = [\<lparr>videoId = ''v1'', status = PROCESSING\<rparr>], clips = []\<rparr>,
      embeddingQueue = [], batchCalls = [], completionLog = []\<rparr> =
   (Inr (),
    \<lparr>store = \<lparr>videos = [\<lparr>videoId = ''v1'', status = EMBEDDING\<rparr>],
              clips = [\<lparr>clipId = 0, clipVideoId = ''v1'', startTime = 0, endTime = 10,
                        transcript = Some [], embedding = None\<rparr>,
                       \<lparr>clipId = 1, clipVideoId = ''v1'', startTime = 10, endTime = 10,
                        transcript = Some [], embedding = None\<rparr>]\<rparr>,
     embeddingQueue = [], batchCalls = [], completionLog = []\<rparr>)"
  by (simp add: videoWorker_def videoWorkerTry_def videoWorkerFromScenes_def setStatus_def
        videoUpdateMany_def
        SHORT_VIDEO_THRESHOLD_def createClipsFromScenes_def clipCreate_def nextSceneOf_def
        defaultMinClipDuration_def clipTranscript_def overlappingSegments_def trim_def
        clipUpdateTranscript_def embeddingStage_def enqueueEmbeddings_def Let_def)

section \<open>Batch embedding: the two providers\<close>

lemma length_mapBack: "length (mapBack texts rest) = length texts"
  by (induction texts arbitrary: rest) simp_all

text \<open>
  The local provider's \<open>embedBatch\<close> never throws and returns one result per input text,
  whatever the pipeline does.
\<close>

lemma TransformersJs_embedBatch_total:
  "\<exists>rs. TransformersJs_embedBatch env texts = Inr rs \<and> length rs = length texts"
  by (simp add: TransformersJs_embedBatch_def sequentialFallback_def length_mapBack Let_def
        split: sum.splits)

text \<open>The cloud provider throws what the API call throws, and returns one result per item
  of the response, however many texts there were.\<close>

lemma OpenAI_embedBatch_rethrows:
  "create texts = Inl e \<Longrightarrow> OpenAI_embedBatch create texts = Inl e"
  by (simp add: OpenAI_embedBatch_def)

lemma OpenAI_embedBatch_unchecked:
  "create texts = Inr data \<Longrightarrow>
     \<exists>rs. OpenAI_embedBatch create texts = Inr rs \<and> length rs = length data"
  by (simp add: OpenAI_embedBatch_def)

text \<open>
  Claim C6 (the code at the failing input). The cloud provider's \<open>embedBatch\<close> hands the
  texts to the API as they are, blank ones included. When the API rejects the request the
  exception is thrown again: no result for the non-blank text, no sequential fallback.
  When the API answers with fewer items than texts, the shorter list is returned
  unchecked. The local provider, in front of a backend that rejects blank input in the
  same way, calls it on the non-blank text only and returns two results, the blank one
  with the empty vector; and when its batch call fails it falls back to one text at a time
  (where a blank text is embedded like any other, and keeps the empty vector only if that
  fails).
\<close>

theorem OpenAI_embedBatch_no_filter_no_fallback:
  "OpenAI_embedBatch
     (\<lambda>input. if [] \<in> set input then Inl (Error ''400 invalid input'')
               else Inr (map (\<lambda>t. [1, 0]) input))
     [''hello'', []] = Inl (Error ''400 invalid input'') \<and>
   OpenAI_embedBatch (\<lambda>input. Inr [[1, 0]]) [''hello'', ''  ''] =
     Inr [\<lparr>resEmbedding = [1, 0], resText = Some ''hello'', resModel = OpenAI_modelName\<rparr>] \<and>
   TransformersJs_embedBatch
     \<lparr>extractOne = (\<lambda>t. Inl (Error ''not used'')),
      extractBatch = (\<lambda>input. if [] \<in> set input then Inl (Error ''400 invalid input'')
                               else Inr (map (\<lambda>t. [1, 0]) input))\<rparr>
     [''hello'', []] =
     Inr [\<lparr>resEmbedding = [1, 0], resText = Some ''hello'', resModel = TransformersJs_modelName\<rparr>,
          \<lparr>resEmbedding = [], resText = Some [], resModel = TransformersJs_modelName\<rparr>] \<and>
   TransformersJs_embedBatch
     \<lparr>extractOne = (\<lambda>t. if t = ''bad'' then Inl (Error ''cannot embed'') else Inr [1, 0]),
      extractBatch = (\<lambda>input. Inl (Error ''batch failed''))\<rparr>
     [''hello'', ''bad'', ''  ''] =
     Inr [\<lparr>resEmbedding = [1, 0], resText = Some ''hello'', resModel = TransformersJs_modelName\<rparr>,
          \<lparr>resEmbedding = [], resText = Some ''bad'', resModel = TransformersJs_modelName\<rparr>,
          \<lparr>resEmbedding = [1, 0], resText = Some ''  '', resModel = TransformersJs_modelName\<rparr>]"
  by (simp add: OpenAI_embedBatch_def TransformersJs_embedBatch_def sequentialFallback_def
        TransformersJs_embed_def emptyResult_def validText_def trim_def isWhiteSpace_def
        Let_def upt_rec)

section \<open>The local transcription backend\<close>

text \<open>Once the file has been read, \<open>transcribe\<close> returns a result whatever happens after.\<close>

lemma WhisperCpp_transcribe_after_read:
  assumes "readFileSync env audioPath = Inr audioBuffer"
  shows "WhisperCpp_transcribe env audioPath =
           Inr (case whisperTry env audioBuffer of Inl e \<Rightarrow> emptyTranscription | Inr r \<Rightarrow> r)"
  using assms by (simp add: WhisperCpp_transcribe_def split: sum.splits)

text \<open>A failure of the file read leaves \<open>transcribe\<close> as an exception.\<close>

lemma WhisperCpp_transcribe_read_failure:
  "readFileSync env audioPath = Inl e \<Longrightarrow> WhisperCpp_transcribe env audioPath = Inl e"
  by (simp add: WhisperCpp_transcribe_def)

text \<open>
  Claim C7 (the code at the failing input). \<open>fs.readFileSync\<close> stands before the \<open>try\<close>
  block: for a missing audio file its exception leaves \<open>transcribe\<close>, where the claim has
  the empty result. A network error of \<open>fetch\<close>, inside the block, does give the empty
  result.
\<close>

theorem WhisperCpp_transcribe_missing_file_throws:
  "WhisperCpp_transcribe
     \<lparr>readFileSync = (\<lambda>p. Inl (Error ''ENOENT: no such file or directory'')),
      fetch = (\<lambda>body. Inl (Error ''fetch failed''))\<rparr>
     ''/output/temp/missing.wav'' = Inl (Error ''ENOENT: no such file or directory'') \<and>
   WhisperCpp_transcribe
     \<lparr>readFileSync = (\<lambda>p. Inr [82, 73, 70, 70]),
      fetch = (\<lambda>body. Inl (Error ''fetch failed''))\<rparr>
     ''/output/temp/audio.wav'' = Inr \<lparr>trSegments = [], trLanguage = ''en'', trDuration = 0\<rparr>"
  by (simp add: WhisperCpp_transcribe_def whisperTry_def emptyTranscription_def)

section \<open>Properties of the chunked transcription\<close>

lemma numChunksOf_oversized:
  assumes "bytes > MAX_FILE_SIZE"
  shows "numChunksOf bytes \<ge> 2"
proof -
  have "real bytes / real TARGET_CHUNK_SIZE > 1"
    using assms by (simp add: MAX_FILE_SIZE_def TARGET_CHUNK_SIZE_def)
  then have "(1::int) < \<lceil>real bytes / real TARGET_CHUNK_SIZE\<rceil>"
    unfolding less_ceiling_iff by simp
  then have "2 \<le> nat \<lceil>real bytes / real TARGET_CHUNK_SIZE\<rceil>" by linarith
  then show ?thesis by (simp only: numChunksOf_def)
qed

text \<open>For a duration that is not negative, \<open>Math.min\<close> never cuts a chunk short.\<close>

lemma chunk_length:
  assumes "0 \<le> duration" and "i < n"
  shows "min (real (i + 1) * (duration / real n)) duration - real i * (duration / real n) =
           duration / real n"
proof -
  define c where "c = duration / real n"
  have n: "0 < real n" using assms(2) by simp
  have "real (i + 1) \<le> real n" using assms(2) by simp
  then have "real (i + 1) * duration \<le> real n * duration"
    using assms(1) by (rule mult_right_mono)
  then have "real (i + 1) * c \<le> duration"
    using n by (simp add: c_def pos_divide_le_eq mult.commute)
  then have "min (real (i + 1) * c) duration = real (i + 1) * c"
    by simp
  then have "min (real (i + 1) * c) duration - real i * c = c"
    by (simp add: algebra_simps)
  then show ?thesis by (simp only: c_def)
qed

text \<open>
  When the extraction and the API call of every iteration succeed, the loop collects each
  chunk's segments, moved by the chunk's start, in chunk order, and has called
  \<open>extractAudioChunk\<close> once per index, with the bounds that the iteration computes.
\<close>

lemma chunkLoop_ok:
  assumes "\<forall>i \<in> set is. extractAudioChunk env (start i) (len i) = Inr (file i)"
    and "\<forall>i \<in> set is. transcribeChunk env (file i) = Inr (resp i)"
    and "\<forall>i \<in> set is. real i * chunkDuration = start i"
    and "\<forall>i \<in> set is. min (real (i + 1) * chunkDuration) duration - real i * chunkDuration = len i"
  shows "chunkLoop env chunkDuration duration is =
           (Inr (concat (map (\<lambda>i. case resp i of
                                     None \<Rightarrow> []
                                   | Some ss \<Rightarrow>
                                       map (\<lambda>seg. \<lparr>segStart = segStart seg + start i,
                                                    segEnd = segEnd seg + start i,
                                                    segText = segText seg\<rparr>) ss)
                           is)),
            map (\<lambda>i. (start i, len i)) is)"
  using assms
proof (induction "is")
  case Nil
  then show ?case by simp
next
  case (Cons i rest)
  have ex: "extractAudioChunk env (start i) (len i) = Inr (file i)"
    and tr: "transcribeChunk env (file i) = Inr (resp i)"
    and st: "real i * chunkDuration = start i"
    and ln: "min (real (i + 1) * chunkDuration) duration - real i * chunkDuration = len i"
    using Cons.prems by simp_all
  have ln': "min ((1 + real i) * chunkDuration) duration - start i = len i"
    using ln st by (simp add: add.commute)
  have off: "map (offsetSegment (start i)) ss =
      map (\<lambda>seg. \<lparr>segStart = segStart seg + start i, segEnd = segEnd seg + start i,
                   segText = segText seg\<rparr>) ss" for ss
    by (simp add: offsetSegment_def)
  have rest: "chunkLoop env chunkDuration duration rest =
      (Inr (concat (map (\<lambda>i. case resp i of
                                None \<Rightarrow> []
                              | Some ss \<Rightarrow>
                                  map (\<lambda>seg. \<lparr>segStart = segStart seg + start i,
                                               segEnd = segEnd seg + start i,
                                               segText = segText seg\<rparr>) ss)
                      rest)),
       map (\<lambda>i. (start i, len i)) rest)"
    using Cons.prems by (intro Cons.IH) simp_all
  show ?case
  proof (cases "resp i")
    case None
    then show ?thesis
      using ex tr st ln' rest by (simp add: Let_def)
  next
    case (Some ss)
    then show ?thesis
      using ex tr st ln' rest off[of ss] by (simp add: Let_def)
  qed
qed

text \<open>
  Claim C8. Take a call of the cloud backend's \<open>transcribe\<close> on an existing file of more
  than 25MB, with a well-formed API key and a duration that is not negative; let \<open>N\<close> be
  \<open>ceil(size / 20MB)\<close>, and let the extraction of the audio from \<open>i * duration / N\<close> for
  \<open>duration / N\<close> seconds and the transcription of the chunk file so extracted succeed
  for every \<open>i < N\<close>. Then \<open>N\<close> is at least 2; the call makes exactly \<open>N\<close> extraction
  calls, the one for chunk \<open>i\<close> from \<open>i * duration / N\<close> for \<open>duration / N\<close> seconds, in
  this order; and it returns the segments of all chunks, those of chunk \<open>i\<close> with
  \<open>i * duration / N\<close> added to their start and end, stably sorted by \<open>start\<close>, hence
  ascending.
\<close>

theorem OpenAI_transcribe_oversized_in_chunks:
  assumes "fileExists env" and "length (apiKey env) \<ge> 10"
    and "statSize env > 25 * 1024 * 1024"
    and "N = nat \<lceil>real (statSize env) / (20 * 1024 * 1024)\<rceil>"
    and "getAudioDuration env = Inr duration" and "0 \<le> duration"
    and "\<forall>i < N. extractAudioChunk env (real i * duration / real N) (duration / real N) =
           Inr (file i)"
    and "\<forall>i < N. transcribeChunk env (file i) = Inr (resp i)"
  shows "(let allSegments =
                concat (map (\<lambda>i. case resp i of
                                    None \<Rightarrow> []
                                  | Some ss \<Rightarrow>
                                      map (\<lambda>seg. \<lparr>segStart = segStart seg + real i * duration / real N,
                                                   segEnd = segEnd seg + real i * duration / real N,
                                                   segText = segText seg\<rparr>) ss)
                          [0..<N]);
              sortedSegments = sort_key segStart allSegments
          in 2 \<le> N \<and>
             OpenAI_transcribe env =
               (Inr \<lparr>trSegments = sortedSegments, trLanguage = ''en'',
                     trDuration = foldl (\<lambda>acc s. max acc (segEnd s)) 0 sortedSegments\<rparr>,
                map (\<lambda>i. (real i * duration / real N, duration / real N)) [0..<N]) \<and>
             sorted (map segStart sortedSegments))"
proof -
  let ?cd = "duration / real N"
  have n1: "numChunksOf (statSize env) = N"
    using assms(4) by (simp add: numChunksOf_def TARGET_CHUNK_SIZE_def)
  have big: "statSize env > MAX_FILE_SIZE"
    using assms(3) by (simp add: MAX_FILE_SIZE_def)
  have n2: "2 \<le> N"
    using numChunksOf_oversized[OF big] n1 by simp
  have ex: "\<forall>i \<in> set [0..<N]. extractAudioChunk env (real i * duration / real N) ?cd =
      Inr (file i)"
    using assms(7) by simp
  have tr: "\<forall>i \<in> set [0..<N]. transcribeChunk env (file i) = Inr (resp i)"
    using assms(8) by simp
  have st: "\<forall>i \<in> set [0..<N]. real i * ?cd = real i * duration / real N"
    by simp
  have ln: "\<forall>i \<in> set [0..<N]. min (real (i + 1) * ?cd) duration - real i * ?cd = ?cd"
    using chunk_length[OF assms(6)] by simp
  let ?all = "concat (map (\<lambda>i. case resp i of
                                 None \<Rightarrow> []
                               | Some ss \<Rightarrow>
                                   map (\<lambda>seg. \<lparr>segStart = segStart seg + real i * duration / real N,
                                                segEnd = segEnd seg + real i * duration / real N,
                                                segText = segText seg\<rparr>) ss)
                       [0..<N])"
  let ?calls = "map (\<lambda>i. (real i * duration / real N, ?cd)) [0..<N]"
  have loop: "chunkLoop env ?cd duration [0..<N] = (Inr ?all, ?calls)"
    by (rule chunkLoop_ok[OF ex tr st ln])
  have key: "\<not> (apiKey env = [] \<or> length (apiKey env) < 10)"
    using assms(2) by auto
  have run: "OpenAI_transcribe env = transcribeInChunks env"
    using assms(1) big key by (simp add: OpenAI_transcribe_def)
  have res: "transcribeInChunks env =
      (Inr \<lparr>trSegments = sort_key segStart ?all, trLanguage = ''en'',
            trDuration = foldl (\<lambda>acc s. max acc (segEnd s)) 0 (sort_key segStart ?all)\<rparr>,
       ?calls)"
    using assms(5) loop n1 by (simp add: transcribeInChunks_def Let_def maxEnd_def)
  show ?thesis
    unfolding Let_def run res using n2 by simp
qed

theorem OpenAI_transcribe_oversized_in_chunks_witness:
  "(let env = \<lparr>fileExists = True, statSize = 40 * 1024 * 1024, apiKey = ''sk-0123456789'',
                getAudioDuration = Inr 100,
                extractAudioChunk =
                  (\<lambda>s l. if s = 0 \<and> l = 50 then Inr ''chunk_0.wav''
                          else if s = 50 \<and> l = 50 then Inr ''chunk_1.wav''
                          else Inl (Error ''FFmpeg failed'')),
                transcribeChunk =
                  (\<lambda>f. if f = ''chunk_0.wav''
                        then Inr (Some [\<lparr>segStart = 40, segEnd = 49, segText = ''c''\<rparr>,
                                        \<lparr>segStart = 1, segEnd = 2, segText = ''a''\<rparr>])
                        else if f = ''chunk_1.wav''
                        then Inr (Some [\<lparr>segStart = 0, segEnd = 3, segText = ''b''\<rparr>])
                        else Inl (Error ''400 bad request'')),
                singleRequestPath = (Inl (Error ''not used''), [])\<rparr>
    in statSize env > 25 * 1024 * 1024 \<and>
       nat \<lceil>real (statSize env) / (20 * 1024 * 1024)\<rceil> = 2 \<and>
       OpenAI_transcribe env =
         (Inr \<lparr>trSegments = [\<lparr>segStart = 1, segEnd = 2, segText = ''a''\<rparr>,
                              \<lparr>segStart = 40, segEnd = 49, segText = ''c''\<rparr>,
                              \<lparr>segStart = 50, segEnd = 53, segText = ''b''\<rparr>],
               trLanguage = ''en'', trDuration = 53\<rparr>,
          [(0, 50), (50, 50)]))"
  using OpenAI_transcribe_oversized_in_chunks
          [of "\<lparr>fileExists = True, statSize = 40 * 1024 * 1024, apiKey = ''sk-0123456789'',
                getAudioDuration = Inr 100,
                extractAudioChunk =
                  (\<lambda>s l. if s = 0 \<and> l = 50 then Inr ''chunk_0.wav''
                          else if s = 50 \<and> l = 50 then Inr ''chunk_1.wav''
                          else Inl (Error ''FFmpeg failed'')),
                transcribeChunk =
                  (\<lambda>f. if f = ''chunk_0.wav''
                        then Inr (Some [\<lparr>segStart = 40, segEnd = 49, segText = ''c''\<rparr>,
                                        \<lparr>segStart = 1, segEnd = 2, segText = ''a''\<rparr>])
                        else if f = ''chunk_1.wav''
                        then Inr (Some [\<lparr>segStart = 0, segEnd = 3, segText = ''b''\<rparr>])
                        else Inl (Error ''400 bad request'')),
                singleRequestPath = (Inl (Error ''not used''), [])\<rparr>"
              2 100
              "\<lambda>i. if i = 0 then ''chunk_0.wav'' else ''chunk_1.wav''"
              "\<lambda>i. if i = 0
                   then Some [\<lparr>segStart = 40, segEnd = 49, segText = ''c''\<rparr>,
                              \<lparr>segStart = 1, segEnd = 2, segText = ''a''\<rparr>]
                   else Some [\<lparr>segStart = 0, segEnd = 3, segText = ''b''\<rparr>]"]
  by (simp add: Let_def upt_rec less_Suc_eq numeral_2_eq_2)

section \<open>The highlight renderer's temporary files\<close>

text \<open>
  When the concatenation fails, the state that the extraction loop left, temp files
  included, is the final state but for the status.
\<close>

lemma generateHighlightVideo_concatenation_failure:
  assumes "findHighlight env = Some hClips"
    and "extractLoop env hClips [] (w\<lparr>highlightStatus := HPROCESSING\<rparr>) = (Inr clipPaths, w1)"
    and "clipPaths \<noteq> []"
    and "concatenateClips env clipPaths = Inl e"
  shows "generateHighlightVideo env highlightId w = (Inl e, w1\<lparr>highlightStatus := HFAILED\<rparr>)"
  using assms by (simp add: generateHighlightVideo_def highlightTry_def)

text \<open>
  Claim C9 (the code at the failing input). A highlight of two clips whose extraction
  succeeds and whose concatenation fails: the exception is thrown again with the status
  \<open>FAILED\<close>, and both extracted files are still in the temp directory; the only
  \<open>fs.unlink\<close> loop stands after the concatenation inside the \<open>try\<close> block.
\<close>

theorem generateHighlightVideo_failure_keeps_temp_files:
  "generateHighlightVideo
     \<lparr>findHighlight = Some [\<lparr>hcVideoPath = Some ''uploads/a.mp4'', hcStartTime = 0, hcEndTime = 5\<rparr>,
                             \<lparr>hcVideoPath = Some ''uploads/a.mp4'', hcStartTime = 7, hcEndTime = 9\<rparr>],
      extractClip = (\<lambda>videoPath s e. Inr ()),
      concatenateClips = (\<lambda>paths. Inl (Error ''Concatenation failed''))\<rparr>
     ''h1''
     \<lparr>highlightStatus = HPENDING, highlightOutputPath = None, tempFiles = [], uuidCounter = 0\<rparr> =
   (Inl (Error ''Concatenation failed''),
    \<lparr>highlightStatus = HFAILED, highlightOutputPath = None, tempFiles = [0, 1],
     uuidCounter = 2\<rparr>)"
  by (simp add: generateHighlightVideo_def highlightTry_def Let_def)

section \<open>Properties of \<open>cosineSimilarity\<close>\<close>

text \<open>On lists of equal length the loop adds the dot product and the two squared norms.\<close>

lemma cosineLoop_sums:
  assumes "length a = length b"
  shows "cosineLoop a b (dotProduct, normA, normB) =
           (dotProduct + (\<Sum>(x, y)\<leftarrow>zip a b. x * y),
            normA + (\<Sum>x\<leftarrow>a. x * x),
            normB + (\<Sum>y\<leftarrow>b. y * y))"
  using assms
proof (induction a b arbitrary: dotProduct normA normB rule: list_induct2)
  case Nil
  then show ?case by simp
next
  case (Cons x xs y ys)
  show ?case by (simp add: Cons.IH algebra_simps)
qed

lemma TransformersJs_cosineSimilarity_eq:
  "TransformersJs_cosineSimilarity a b =
     (if length a \<noteq> length b then Inl (Error ''Vectors must have the same length'')
      else if sqrt (\<Sum>x\<leftarrow>a. x * x) = 0 \<or> sqrt (\<Sum>y\<leftarrow>b. y * y) = 0 then Inr 0
      else Inr ((\<Sum>(x, y)\<leftarrow>zip a b. x * y) /
                (sqrt (\<Sum>x\<leftarrow>a. x * x) * sqrt (\<Sum>y\<leftarrow>b. y * y))))"
proof (cases "length a = length b")
  case True
  have "cosineLoop a b (0, 0, 0) =
      ((\<Sum>(x, y)\<leftarrow>zip a b. x * y), (\<Sum>x\<leftarrow>a. x * x), (\<Sum>y\<leftarrow>b. y * y))"
    using cosineLoop_sums[OF True, of 0 0 0] by simp
  then show ?thesis
    using True by (simp add: TransformersJs_cosineSimilarity_def)
next
  case False
  then show ?thesis by (simp add: TransformersJs_cosineSimilarity_def)
qed

lemma OpenAI_cosineSimilarity_eq:
  "OpenAI_cosineSimilarity a b = TransformersJs_cosineSimilarity a b"
  by (simp add: OpenAI_cosineSimilarity_def TransformersJs_cosineSimilarity_def)

text \<open>
  Claim C10. For all vectors \<open>a\<close> and \<open>b\<close> (over the reals): \<open>cosineSimilarity\<close> throws
  exactly when the lengths differ; for equal lengths it returns 0 when the norm of either
  vector is 0 and the quotient of the dot product by the product of the norms otherwise;
  and the two provider classes compute the same function.
\<close>

theorem cosineSimilarity_raises_iff_lengths_differ:
  "((\<exists>e. TransformersJs_cosineSimilarity a b = Inl e) \<longleftrightarrow> length a \<noteq> length b) \<and>
   ((\<exists>e. OpenAI_cosineSimilarity a b = Inl e) \<longleftrightarrow> length a \<noteq> length b) \<and>
   OpenAI_cosineSimilarity a b = TransformersJs_cosineSimilarity a b \<and>
   TransformersJs_cosineSimilarity a b =
     (if length a \<noteq> length b then Inl (Error ''Vectors must have the same length'')
      else if sqrt (\<Sum>x\<leftarrow>a. x * x) = 0 \<or> sqrt (\<Sum>y\<leftarrow>b. y * y) = 0 then Inr 0
      else Inr ((\<Sum>(x, y)\<leftarrow>zip a b. x * y) /
                (sqrt (\<Sum>x\<leftarrow>a. x * x) * sqrt (\<Sum>y\<leftarrow>b. y * y))))"
proof -
  have t: "(\<exists>e. TransformersJs_cosineSimilarity a b = Inl e) \<longleftrightarrow> length a \<noteq> length b"
    unfolding TransformersJs_cosineSimilarity_eq by simp
  show ?thesis
    unfolding OpenAI_cosineSimilarity_eq
    using t TransformersJs_cosineSimilarity_eq by blast
qed

theorem cosineSimilarity_raises_iff_lengths_differ_witness:
  "TransformersJs_cosineSimilarity [3, 4] [3, 4] = Inr 1 \<and>
   OpenAI_cosineSimilarity [3, 4] [3, 4] = Inr 1 \<and>
   TransformersJs_cosineSimilarity [0, 0] [3, 4] = Inr 0 \<and>
   OpenAI_cosineSimilarity [3, 4] [0, 0] = Inr 0 \<and>
   TransformersJs_cosineSimilarity [3, 4] [3] = Inl (Error ''Vectors must have the same length'') \<and>
   OpenAI_cosineSimilarity [] [1] = Inl (Error ''Vectors must have the same length'')"
  using cosineSimilarity_raises_iff_lengths_differ [of "[3, 4]" "[3, 4]"]
        cosineSimilarity_raises_iff_lengths_differ [of "[0, 0]" "[3, 4]"]
        cosineSimilarity_raises_iff_lengths_differ [of "[3, 4]" "[0, 0]"]
        cosineSimilarity_raises_iff_lengths_differ [of "[3, 4]" "[3]"]
        cosineSimilarity_raises_iff_lengths_differ [of "[]" "[1]"]
  by simp

end
